theory Spec2Isabelle
  imports Complex_Main "HOL-Library.Log_Nat"
begin

section \<open>Data model of the annotation front end\<close>

text \<open>
  The application context (\<open>AppContext\<close>) keeps, per image id, the detection results and
  the list of hidden object indices. A JavaScript number is a rational here, as every
  finite double is one. The store and the handlers are written with the exact operations,
  which is all that the properties of the store's shape depend on; the coordinate
  arithmetic is given a second time with every operation rounded, and the numeric
  properties are stated of that. Object indices are array positions, hence natural numbers.
\<close>

type_synonym image_id = string

text \<open>A normalized bounding box is the four-element array \<open>[x1, y1, x2, y2]\<close>.\<close>

record bbox4 =
  bbox0 :: rat
  bbox1 :: rat
  bbox2 :: rat
  bbox3 :: rat

text \<open>
  One entry of \<open>results.objects\<close>: \<open>{ class_id, bbox, mask, confidence }\<close>. The mask is
  \<open>null\<close> or an array of points \<open>[x, y]\<close> in absolute pixels; its field is \<open>mask_pts\<close>
  here, \<open>mask\<close> being a constant of the library.
\<close>

record annotated_object =
  class_id :: nat
  bbox :: bbox4
  mask_pts :: "(rat \<times> rat) list option"
  confidence :: rat

record results =
  classes :: "string list"
  objects :: "annotated_object list"

record image_prompts =
  bboxes :: "bbox4 list"
  cls :: "nat list"

datatype detection_mode = TEXT_PROMPT | IMAGE_PROMPT | PROMPT_FREE

text \<open>
  The part of the provider state that the object store reads and writes.
  \<open>currentImage\<close> is the id of \<open>images[currentImageIndex]\<close> (ids are the non-empty strings
  \<open>Date.now().toString()\<close>), or \<open>None\<close> when no image is selected.
\<close>

record app_state =
  currentImage :: "image_id option"
  detectionMode :: detection_mode
  imagePrompts :: image_prompts
  detectionResults :: "image_id \<rightharpoonup> results"
  hiddenObjects :: "image_id \<rightharpoonup> nat list"

definition currentResults :: "app_state \<Rightarrow> results option" where
  "currentResults s =
     (case currentImage s of None \<Rightarrow> None | Some cid \<Rightarrow> detectionResults s cid)"

definition currentHiddenObjects :: "app_state \<Rightarrow> nat list" where
  "currentHiddenObjects s =
     (case currentImage s of
        None \<Rightarrow> []
      | Some cid \<Rightarrow> (case hiddenObjects s cid of None \<Rightarrow> [] | Some h \<Rightarrow> h))"

section \<open>Object store operations\<close>

text \<open>
  Every update first deep-clones the previous value through JSON, which is the identity
  on the data modelled here. \<open>splice1\<close> is \<open>objects.splice(index, 1)\<close> for an array
  position: out of range it removes nothing.
\<close>

definition splice1 :: "nat \<Rightarrow> 'a list \<Rightarrow> 'a list" where
  "splice1 index xs = take index xs @ drop (Suc index) xs"

definition updateImagePrompts :: "bbox4 list \<Rightarrow> nat list \<Rightarrow> app_state \<Rightarrow> app_state" where
  "updateImagePrompts bs cs s = s\<lparr>imagePrompts := \<lparr>bboxes = bs, cls = cs\<rparr>\<rparr>"

definition addDetectionResult :: "image_id \<Rightarrow> results \<Rightarrow> app_state \<Rightarrow> app_state" where
  "addDetectionResult imageId result s =
     s\<lparr>detectionResults := (detectionResults s)(imageId \<mapsto> result)\<rparr>"

text \<open>
  \<open>addBboxToResults(bbox, classId = 0, mask = null)\<close>: returns the previous state when
  there is no current image or no result set for it, otherwise pushes the new object with
  confidence 1.
\<close>

definition addBboxToResults ::
  "bbox4 \<Rightarrow> nat \<Rightarrow> (rat \<times> rat) list option \<Rightarrow> app_state \<Rightarrow> app_state" where
  "addBboxToResults b classId m s =
     (case currentImage s of
        None \<Rightarrow> s
      | Some cid \<Rightarrow>
          (case detectionResults s cid of
             None \<Rightarrow> s
           | Some r \<Rightarrow>
               s\<lparr>detectionResults := (detectionResults s)(cid \<mapsto>
                    r\<lparr>objects := objects r @
                      [\<lparr>class_id = classId, bbox = b, mask_pts = m, confidence = 1\<rparr>]\<rparr>)\<rparr>))"

text \<open>
  \<open>updateBboxInResults(index, updatedBbox, updatedMask = null)\<close>: \<open>objects[index]\<close> is
  \<open>undefined\<close> out of range, and then the previous state is returned. The mask is
  replaced only when a mask is passed (an array, also an empty one, is truthy).
\<close>

definition updateBboxInResults ::
  "nat \<Rightarrow> bbox4 \<Rightarrow> (rat \<times> rat) list option \<Rightarrow> app_state \<Rightarrow> app_state" where
  "updateBboxInResults index updatedBbox updatedMask s =
     (case currentImage s of
        None \<Rightarrow> s
      | Some cid \<Rightarrow>
          (case detectionResults s cid of
             None \<Rightarrow> s
           | Some r \<Rightarrow>
               if index < length (objects r) then
                 let obj = objects r ! index;
                     obj1 = obj\<lparr>bbox := updatedBbox\<rparr>;
                     obj2 = (case updatedMask of
                               None \<Rightarrow> obj1
                             | Some m \<Rightarrow> obj1\<lparr>mask_pts := Some m\<rparr>)
                 in s\<lparr>detectionResults := (detectionResults s)(cid \<mapsto>
                        r\<lparr>objects := (objects r)[index := obj2]\<rparr>)\<rparr>
               else s))"

text \<open>
  \<open>removeBboxFromResults(index)\<close>: two state updates, first the results, then the hidden
  indices. The second one returns the previous hidden map unless \<open>index\<close> itself is in the
  hidden list of the current image; only then are the remaining entries renumbered.
\<close>

definition removeBboxFromResults :: "nat \<Rightarrow> app_state \<Rightarrow> app_state" where
  "removeBboxFromResults index s =
     (case currentImage s of
        None \<Rightarrow> s
      | Some cid \<Rightarrow>
          let s1 = (case detectionResults s cid of
                      None \<Rightarrow> s
                    | Some r \<Rightarrow>
                        s\<lparr>detectionResults := (detectionResults s)(cid \<mapsto>
                             r\<lparr>objects := splice1 index (objects r)\<rparr>)\<rparr>);
              hidden = (case hiddenObjects s1 cid of None \<Rightarrow> [] | Some h \<Rightarrow> h)
          in if index \<notin> set hidden then s1
             else s1\<lparr>hiddenObjects := (hiddenObjects s1)(cid \<mapsto>
                    map (\<lambda>i. if i > index then i - 1 else i)
                        (filter (\<lambda>i. i \<noteq> index) hidden))\<rparr>)"

definition updateObjectClass :: "nat \<Rightarrow> nat \<Rightarrow> app_state \<Rightarrow> app_state" where
  "updateObjectClass index newClassId s =
     (case currentImage s of
        None \<Rightarrow> s
      | Some cid \<Rightarrow>
          (case detectionResults s cid of
             None \<Rightarrow> s
           | Some r \<Rightarrow>
               if index < length (objects r) then
                 s\<lparr>detectionResults := (detectionResults s)(cid \<mapsto>
                      r\<lparr>objects := (objects r)[index :=
                           (objects r ! index)\<lparr>class_id := newClassId\<rparr>]\<rparr>)\<rparr>
               else s))"

definition toggleObjectVisibility :: "nat \<Rightarrow> app_state \<Rightarrow> app_state" where
  "toggleObjectVisibility index s =
     (case currentImage s of
        None \<Rightarrow> s
      | Some cid \<Rightarrow>
          let hidden = (case hiddenObjects s cid of None \<Rightarrow> [] | Some h \<Rightarrow> h);
              newHidden = (if index \<in> set hidden
                           then filter (\<lambda>i. i \<noteq> index) hidden
                           else hidden @ [index])
          in s\<lparr>hiddenObjects := (hiddenObjects s)(cid \<mapsto> newHidden)\<rparr>)"

section \<open>Coordinate helpers of the canvas\<close>

text \<open>
  The absolute box \<open>{ x, y, width, height }\<close> in image pixels. Image sizes come from a
  loaded image; a division by a zero size (\<open>Infinity\<close> or \<open>NaN\<close> in JavaScript) is outside
  every statement below, which all assume positive sizes.
\<close>

record abs_box =
  box_x :: rat
  box_y :: rat
  box_width :: rat
  box_height :: rat

definition getLocalMaskPoints :: "(rat \<times> rat) list \<Rightarrow> rat \<Rightarrow> rat \<Rightarrow> rat list" where
  "getLocalMaskPoints maskPoints boxX boxY =
     concat (map (\<lambda>(p0, p1). [p0 - boxX, p1 - boxY]) maskPoints)"

definition denormalizeBbox :: "bbox4 \<Rightarrow> rat \<Rightarrow> rat \<Rightarrow> abs_box" where
  "denormalizeBbox b imgW imgH =
     \<lparr>box_x = bbox0 b * imgW,
      box_y = bbox1 b * imgH,
      box_width = (bbox2 b - bbox0 b) * imgW,
      box_height = (bbox3 b - bbox1 b) * imgH\<rparr>"

text \<open>
  The array literal that \<open>handleMouseUp\<close> builds, in both of its commit branches, from the
  drawn box and the image size: the conversion from an absolute box back to \<open>[x1, y1, x2, y2]\<close>.
\<close>

definition normalizeBox :: "abs_box \<Rightarrow> rat \<Rightarrow> rat \<Rightarrow> bbox4" where
  "normalizeBox cb imgW imgH =
     \<lparr>bbox0 = box_x cb / imgW,
      bbox1 = box_y cb / imgH,
      bbox2 = (box_x cb + box_width cb) / imgW,
      bbox3 = (box_y cb + box_height cb) / imgH\<rparr>"

text \<open>The pair \<open>{ nbbox, nmask }\<close> returned by the two edit functions.\<close>

record edited =
  nbbox :: bbox4
  nmask :: "(rat \<times> rat) list option"

text \<open>
  \<open>shiftBboxAndMask\<close> and \<open>scaleBboxAndMask\<close> with the exact operations. The handlers of
  the event model below call them in this form; no property proved of that model depends
  on the numbers that a translation or a scaling produces. The shift as the doubles
  compute it, with every operation rounded, follows the rounded conversions.
\<close>

definition shiftBboxAndMask :: "annotated_object \<Rightarrow> rat \<Rightarrow> rat \<Rightarrow> rat \<Rightarrow> rat \<Rightarrow> edited" where
  "shiftBboxAndMask obj dx dy imgW imgH =
     (let bX1 = bbox0 (bbox obj) * imgW + dx;
          bY1 = bbox1 (bbox obj) * imgH + dy;
          bX2 = bbox2 (bbox obj) * imgW + dx;
          bY2 = bbox3 (bbox obj) * imgH + dy
      in \<lparr>nbbox = \<lparr>bbox0 = bX1 / imgW, bbox1 = bY1 / imgH,
                    bbox2 = bX2 / imgW, bbox3 = bY2 / imgH\<rparr>,
          nmask = (case mask_pts obj of
                     None \<Rightarrow> None
                   | Some pts \<Rightarrow> Some (map (\<lambda>(p0, p1). (p0 + dx, p1 + dy)) pts))\<rparr>)"

text \<open>The anchor arguments \<open>anchorX, anchorY\<close> are not read by the source.\<close>

definition scaleBboxAndMask ::
  "annotated_object \<Rightarrow> rat \<Rightarrow> rat \<Rightarrow> rat \<Rightarrow> rat \<Rightarrow> rat \<Rightarrow> rat \<Rightarrow> edited" where
  "scaleBboxAndMask obj scaleX scaleY anchorX anchorY imgW imgH =
     (let absX1 = bbox0 (bbox obj) * imgW;
          absY1 = bbox1 (bbox obj) * imgH;
          absW = (bbox2 (bbox obj) - bbox0 (bbox obj)) * imgW;
          absH = (bbox3 (bbox obj) - bbox1 (bbox obj)) * imgH;
          newW = absW * scaleX;
          newH = absH * scaleY;
          bX2 = absX1 + newW;
          bY2 = absY1 + newH
      in \<lparr>nbbox = \<lparr>bbox0 = absX1 / imgW, bbox1 = absY1 / imgH,
                    bbox2 = bX2 / imgW, bbox3 = bY2 / imgH\<rparr>,
          nmask = (case mask_pts obj of
                     None \<Rightarrow> None
                   | Some pts \<Rightarrow>
                       Some (map (\<lambda>(p0, p1). (absX1 + (p0 - absX1) * scaleX,
                                              absY1 + (p1 - absY1) * scaleY)) pts))\<rparr>)"

text \<open>
  JavaScript computes with doubles, which round the result of every operation. The two
  conversions once more, with a rounding function \<open>rnd\<close> applied to each result; with the
  identity for \<open>rnd\<close> they are the exact conversions above. \<open>rounding_within u eta\<close> says
  that \<open>rnd\<close> has relative error at most \<open>u\<close> and absolute error at most \<open>eta\<close>, which
  double arithmetic has with \<open>u = 2^-53\<close> and \<open>eta = 2^-1075\<close> as long as no result
  overflows.
\<close>

definition denormalizeBbox_fl :: "(rat \<Rightarrow> rat) \<Rightarrow> bbox4 \<Rightarrow> rat \<Rightarrow> rat \<Rightarrow> abs_box" where
  "denormalizeBbox_fl rnd b imgW imgH =
     \<lparr>box_x = rnd (bbox0 b * imgW),
      box_y = rnd (bbox1 b * imgH),
      box_width = rnd (rnd (bbox2 b - bbox0 b) * imgW),
      box_height = rnd (rnd (bbox3 b - bbox1 b) * imgH)\<rparr>"

definition normalizeBox_fl :: "(rat \<Rightarrow> rat) \<Rightarrow> abs_box \<Rightarrow> rat \<Rightarrow> rat \<Rightarrow> bbox4" where
  "normalizeBox_fl rnd cb imgW imgH =
     \<lparr>bbox0 = rnd (box_x cb / imgW),
      bbox1 = rnd (box_y cb / imgH),
      bbox2 = rnd (rnd (box_x cb + box_width cb) / imgW),
      bbox3 = rnd (rnd (box_y cb + box_height cb) / imgH)\<rparr>"

definition rounding_within :: "rat \<Rightarrow> rat \<Rightarrow> (rat \<Rightarrow> rat) \<Rightarrow> bool" where
  "rounding_within u eta rnd = (\<forall>v. \<bar>rnd v - v\<bar> \<le> u * \<bar>v\<bar> + eta)"


section \<open>The canvas: interaction state and event handlers\<close>

datatype edit_mode = SELECT | DRAW | PAN

text \<open>
  The state the handlers of \<open>AnnotationCanvas\<close> read and write: the provider state, the
  size of the loaded \<open>image\<close> (field \<open>loadedImage\<close>, \<open>None\<close> until \<open>useImage\<close> has loaded
  it) and the component's own state variables. \<open>selectedShapeRef\<close>, \<open>hoveredObject\<close> and
  the class menu anchor only drive rendering and are left out.
\<close>

record canvas =
  app :: app_state
  loadedImage :: "(rat \<times> rat) option"
  scale :: rat
  drawing :: bool
  startPoint :: "rat \<times> rat"
  currentBox :: "abs_box option"
  selectedObjectIndex :: "nat option"
  editMode :: edit_mode
  stagePosition :: "rat \<times> rat"
  isDragging :: bool

text \<open>
  \<open>handleMouseDown(e)\<close>. \<open>onStage\<close> says whether the event target is the stage itself;
  \<open>pointerPos\<close> is \<open>getPointerPosition()\<close>, which may be null.
\<close>

definition handleMouseDown :: "bool \<Rightarrow> (rat \<times> rat) option \<Rightarrow> canvas \<Rightarrow> canvas" where
  "handleMouseDown onStage pointerPos s =
     (if onStage then
        let s1 = s\<lparr>selectedObjectIndex := None\<rparr>
        in if editMode s = PAN then s1\<lparr>isDragging := True\<rparr>
           else if editMode s = DRAW then
             (case pointerPos of
                None \<Rightarrow> s1
              | Some (pX, pY) \<Rightarrow>
                  let x = (pX - fst (stagePosition s)) / scale s;
                      y = (pY - snd (stagePosition s)) / scale s
                  in s1\<lparr>drawing := True, startPoint := (x, y),
                        currentBox := Some \<lparr>box_x = x, box_y = y,
                                            box_width = 0, box_height = 0\<rparr>\<rparr>)
           else s1
      else s)"

text \<open>\<open>handleMouseMove(e)\<close> with the pointer position and \<open>e.evt.movementX/Y\<close>.\<close>

definition handleMouseMove :: "(rat \<times> rat) option \<Rightarrow> rat \<times> rat \<Rightarrow> canvas \<Rightarrow> canvas" where
  "handleMouseMove pointerPos movement s =
     (if isDragging s \<and> editMode s = PAN then
        s\<lparr>stagePosition := (fst (stagePosition s) + fst movement,
                             snd (stagePosition s) + snd movement)\<rparr>
      else if drawing s \<and> editMode s = DRAW then
        (case pointerPos of
           None \<Rightarrow> s
         | Some (pX, pY) \<Rightarrow>
             let x = (pX - fst (stagePosition s)) / scale s;
                 y = (pY - snd (stagePosition s)) / scale s
             in s\<lparr>currentBox := Some
                    \<lparr>box_x = min x (fst (startPoint s)),
                     box_y = min y (snd (startPoint s)),
                     box_width = \<bar>x - fst (startPoint s)\<bar>,
                     box_height = \<bar>y - snd (startPoint s)\<bar>\<rparr>\<rparr>)
      else s)"

text \<open>
  \<open>handleMouseUp()\<close>: ends a pan, or finalizes a drawn box. The box is added to the image
  prompts in image-prompt mode, and otherwise to the results only if the current image
  has a result set; in every case of the second branch the draw state is reset.
\<close>

definition handleMouseUp :: "canvas \<Rightarrow> canvas" where
  "handleMouseUp s =
     (if isDragging s \<and> editMode s = PAN then s\<lparr>isDragging := False\<rparr>
      else
        (case (currentBox s, loadedImage s) of
           (Some cb, Some (imgW, imgH)) \<Rightarrow>
             if drawing s \<and> editMode s = DRAW then
               let a = app s;
                   a1 = (if box_width cb > 5 \<and> box_height cb > 5 then
                           (if detectionMode a = IMAGE_PROMPT then
                              updateImagePrompts
                                (bboxes (imagePrompts a) @ [normalizeBox cb imgW imgH])
                                (cls (imagePrompts a) @ [0]) a
                            else if currentResults a \<noteq> None then
                              addBboxToResults (normalizeBox cb imgW imgH) 0 None a
                            else a)
                         else a)
               in s\<lparr>app := a1, drawing := False, currentBox := None\<rparr>
             else s
         | _ \<Rightarrow> s))"

definition handleBoxSelect :: "nat \<Rightarrow> canvas \<Rightarrow> canvas" where
  "handleBoxSelect index s =
     (if editMode s \<noteq> SELECT then s else s\<lparr>selectedObjectIndex := Some index\<rparr>)"

definition handleGroupDragEnd :: "nat \<Rightarrow> rat \<Rightarrow> rat \<Rightarrow> canvas \<Rightarrow> canvas" where
  "handleGroupDragEnd index dx dy s =
     (case (loadedImage s, currentResults (app s)) of
        (Some (imgW, imgH), Some r) \<Rightarrow>
          if index < length (objects r) then
            let e = shiftBboxAndMask (objects r ! index) dx dy imgW imgH
            in s\<lparr>app := updateBboxInResults index (nbbox e) (nmask e) (app s)\<rparr>
          else s
      | _ \<Rightarrow> s)"

definition handleTransformEnd ::
  "nat \<Rightarrow> rat \<Rightarrow> rat \<Rightarrow> rat \<Rightarrow> rat \<Rightarrow> canvas \<Rightarrow> canvas" where
  "handleTransformEnd index scaleX scaleY nodeX nodeY s =
     (case (loadedImage s, currentResults (app s)) of
        (Some (imgW, imgH), Some r) \<Rightarrow>
          if index < length (objects r) then
            let e = scaleBboxAndMask (objects r ! index) scaleX scaleY nodeX nodeY imgW imgH
            in s\<lparr>app := updateBboxInResults index (nbbox e) (nmask e) (app s)\<rparr>
          else s
      | _ \<Rightarrow> s)"

definition handleDeleteSelected :: "canvas \<Rightarrow> canvas" where
  "handleDeleteSelected s =
     (case selectedObjectIndex s of
        None \<Rightarrow> s
      | Some i \<Rightarrow>
          if currentResults (app s) \<noteq> None then
            s\<lparr>app := removeBboxFromResults i (app s), selectedObjectIndex := None\<rparr>
          else s)"

datatype key = Delete | Escape | OtherKey

definition handleKeyDown :: "key \<Rightarrow> canvas \<Rightarrow> canvas" where
  "handleKeyDown k s =
     (if k = Delete \<and> selectedObjectIndex s \<noteq> None \<and> currentResults (app s) \<noteq> None then
        s\<lparr>app := removeBboxFromResults (the (selectedObjectIndex s)) (app s),
          selectedObjectIndex := None\<rparr>
      else if k = Escape then
        s\<lparr>selectedObjectIndex := None, drawing := False, currentBox := None\<rparr>
      else s)"

definition handleClassChange :: "nat \<Rightarrow> canvas \<Rightarrow> canvas" where
  "handleClassChange newClassId s =
     (case selectedObjectIndex s of
        None \<Rightarrow> s
      | Some i \<Rightarrow>
          if currentResults (app s) \<noteq> None
          then s\<lparr>app := updateObjectClass i newClassId (app s)\<rparr>
          else s)"

text \<open>
  The effect with dependencies \<open>[hiddenObjects, selectedObjectIndex]\<close>: it clears the
  selection when the selected index is in the hidden list of the current image.
\<close>

definition clearHiddenSelection :: "canvas \<Rightarrow> canvas" where
  "clearHiddenSelection s =
     (case selectedObjectIndex s of
        None \<Rightarrow> s
      | Some i \<Rightarrow>
          if i \<in> set (currentHiddenObjects (app s))
          then s\<lparr>selectedObjectIndex := None\<rparr>
          else s)"

text \<open>
  The events of one image's session. \<open>SetEditMode\<close> is \<open>setEditMode\<close>, called by the three
  mode buttons and by the two effects that switch the mode after the detection mode or
  the current results have changed; \<open>ToggleVisibility\<close> and \<open>DetectionResult\<close> come from
  the panels beside the canvas. A step is the handler followed by the selection effect,
  which React runs after the render that follows the handler's state updates. The
  effects that run when an image is loaded or the window is resized are not events of
  a session on one loaded image.
\<close>

datatype event =
    MouseDown bool "(rat \<times> rat) option"
  | MouseMove "(rat \<times> rat) option" "rat \<times> rat"
  | MouseUp
  | BoxSelect nat
  | KeyDown key
  | DeleteSelected
  | GroupDragEnd nat rat rat
  | TransformEnd nat rat rat rat rat
  | ClassChange nat
  | SetEditMode edit_mode
  | SetDetectionMode detection_mode
  | ToggleVisibility nat
  | DetectionResult results

fun handle :: "event \<Rightarrow> canvas \<Rightarrow> canvas" where
  "handle (MouseDown onStage p) s = handleMouseDown onStage p s"
| "handle (MouseMove p mv) s = handleMouseMove p mv s"
| "handle MouseUp s = handleMouseUp s"
| "handle (BoxSelect i) s = handleBoxSelect i s"
| "handle (KeyDown k) s = handleKeyDown k s"
| "handle DeleteSelected s = handleDeleteSelected s"
| "handle (GroupDragEnd i dx dy) s = handleGroupDragEnd i dx dy s"
| "handle (TransformEnd i sx sy nx ny) s = handleTransformEnd i sx sy nx ny s"
| "handle (ClassChange c) s = handleClassChange c s"
| "handle (SetEditMode m) s = s\<lparr>editMode := m\<rparr>"
| "handle (SetDetectionMode m) s = s\<lparr>app := (app s)\<lparr>detectionMode := m\<rparr>\<rparr>"
| "handle (ToggleVisibility i) s = s\<lparr>app := toggleObjectVisibility i (app s)\<rparr>"
| "handle (DetectionResult r) s =
     (case currentImage (app s) of
        None \<Rightarrow> s
      | Some cid \<Rightarrow> s\<lparr>app := addDetectionResult cid r (app s)\<rparr>)"

definition step :: "event \<Rightarrow> canvas \<Rightarrow> canvas" where
  "step e s = clearHiddenSelection (handle e s)"

definition run :: "event list \<Rightarrow> canvas \<Rightarrow> canvas" where
  "run es s = foldl (\<lambda>st e. step e st) s es"

text \<open>
  A hidden object is never the selected one: the property the selection effect maintains.
\<close>

definition selection_visible :: "canvas \<Rightarrow> bool" where
  "selection_visible s =
     (case selectedObjectIndex s of
        None \<Rightarrow> True
      | Some i \<Rightarrow> i \<notin> set (currentHiddenObjects (app s)))"

text \<open>The component's initial state, from the defaults of its \<open>useState\<close> calls.\<close>

definition initialCanvas :: "app_state \<Rightarrow> (rat \<times> rat) option \<Rightarrow> canvas" where
  "initialCanvas a img =
     \<lparr>app = a, loadedImage = img, scale = 1, drawing = False, startPoint = (0, 0),
      currentBox = None, selectedObjectIndex = None, editMode = SELECT,
      stagePosition = (0, 0), isDragging = False\<rparr>"

section \<open>Binary floating point\<close>

text \<open>
  The numbers of JavaScript and the floats of Python are IEEE 754 doubles: the result of
  every arithmetic operation is the double nearest to the exact result, a tie going to
  the even significand. \<open>round_half_even\<close> is that rule on integers. \<open>ilog2 r\<close> is the
  exponent of the leading bit of a positive rational, \<open>\<lfloor>log\<^sub>2 r\<rfloor>\<close>, computed from the bit
  lengths of numerator and denominator.
\<close>

definition round_half_even :: "rat \<Rightarrow> int" where
  "round_half_even v =
     (let q = \<lfloor>v\<rfloor>; r = v - of_int q
      in if r < 1 / 2 then q else if r > 1 / 2 then q + 1 else if even q then q else q + 1)"

definition ilog2 :: "rat \<Rightarrow> int" where
  "ilog2 r = (let (p, q) = quotient_of r; k = bitlen p - bitlen q
              in if 2 powi k \<le> r then k else k - 1)"

text \<open>
  \<open>rnd64 r\<close> is the double nearest to \<open>r\<close>: 53 significant bits, so the spacing of the
  doubles around \<open>r\<close> is \<open>2^(e - 52)\<close> with \<open>e\<close> the exponent of \<open>r\<close>, and never less than
  \<open>2^-1074\<close>, the spacing of the subnormal numbers. It has no largest exponent; a result of
  magnitude \<open>2^1024\<close> or more is what the format turns into an infinity.
\<close>

definition rnd64 :: "rat \<Rightarrow> rat" where
  "rnd64 r =
     (if r = 0 then 0
      else let e = max (ilog2 \<bar>r\<bar>) (- 1022);
               ulp = 2 powi (e - 52)
           in of_int (round_half_even (r / ulp)) * ulp)"

section \<open>Export to the YOLO text format\<close>

text \<open>
  \<open>convert_to_yolo_format(annotations, image_width, image_height, class_name_to_id)\<close> of
  \<open>app/utils/conversion.py\<close>, which the repository holds as a compiled module: the
  function is read from its constants, its names and the order of its instructions.
  An annotation is a dictionary with string keys, as the docstring says; its values are
  Python values as they arrive from JSON, where a number without fraction or exponent is
  an \<open>int\<close> of any size and every other number a \<open>float\<close>. A boolean is the \<open>int\<close> 0 or 1,
  which is how every operation of this function treats it.

  A Python \<open>float\<close> is a finite double, an infinity or NaN. The two zeros of the format are
  one value here: the sign of a zero could reach the output only through the clamp, and
  \<open>max(0.0, m)\<close> returns its first argument, the literal \<open>0.0\<close>, unless \<open>m > 0.0\<close>.
\<close>

datatype pyfloat = Fin rat | PosInf | NegInf | NaN

text \<open>The double nearest to a rational, with overflow to an infinity.\<close>

definition round64 :: "rat \<Rightarrow> pyfloat" where
  "round64 r =
     (let v = rnd64 r
      in if 2 ^ 1024 \<le> v then PosInf else if v \<le> - (2 ^ 1024) then NegInf else Fin v)"

text \<open>
  \<open>x + y\<close> on floats: the rounded sum of two finite numbers; an infinity absorbs a finite
  number, two infinities of opposite sign and every sum with NaN give NaN.
\<close>

fun fl_add :: "pyfloat \<Rightarrow> pyfloat \<Rightarrow> pyfloat" where
  "fl_add (Fin a) (Fin b) = round64 (a + b)"
| "fl_add (Fin a) y = y"
| "fl_add x (Fin b) = x"
| "fl_add PosInf PosInf = PosInf"
| "fl_add NegInf NegInf = NegInf"
| "fl_add x y = NaN"

text \<open>
  \<open>x / d\<close> for the two divisors of the function, the literal 2 and an image size that the
  guard at the top has found positive: \<open>d\<close> is a positive finite double, the quotient of a
  finite number is rounded, an infinity and NaN stay what they are.
\<close>

fun fl_div :: "pyfloat \<Rightarrow> rat \<Rightarrow> pyfloat" where
  "fl_div (Fin a) d = round64 (a / d)"
| "fl_div x d = x"

text \<open>\<open>x < y\<close> on floats: every comparison with NaN is false.\<close>

fun fl_less :: "pyfloat \<Rightarrow> pyfloat \<Rightarrow> bool" where
  "fl_less (Fin a) (Fin b) = (a < b)"
| "fl_less (Fin a) PosInf = True"
| "fl_less NegInf (Fin b) = True"
| "fl_less NegInf PosInf = True"
| "fl_less x y = False"

text \<open>
  \<open>max(0.0, min(1.0, v))\<close>: \<open>min(1.0, v)\<close> is \<open>v\<close> when \<open>v < 1.0\<close> and its first argument
  otherwise, \<open>max(0.0, m)\<close> is \<open>m\<close> when \<open>m > 0.0\<close> and its first argument otherwise.
\<close>

definition clamp01 :: "pyfloat \<Rightarrow> pyfloat" where
  "clamp01 v =
     (let m = (if fl_less v (Fin 1) then v else Fin 1)
      in if fl_less (Fin 0) m then m else Fin 0)"

datatype pyval =
    PInt int
  | PFloat pyfloat
  | PStr string
  | PNone
  | PList "pyval list"
  | PDict "(string \<times> pyval) list"

text \<open>
  The exceptions the function can raise. The \<open>except\<close> clause names the first four;
  \<open>OverflowError\<close> is what the conversion of an \<open>int\<close> to a \<open>float\<close> raises when the \<open>int\<close>
  is beyond the range of the doubles.
\<close>

datatype pyexc = KeyError | TypeError | ValueError | IndexError | OverflowError

type_synonym annotation = "string \<rightharpoonup> pyval"

text \<open>
  The conversion of an \<open>int\<close> to a \<open>float\<close>, in \<open>float(n)\<close> and in \<open>x / n\<close>: the nearest
  double, or \<open>OverflowError\<close> when that is no finite number.
\<close>

definition to_double :: "int \<Rightarrow> pyexc + rat" where
  "to_double n =
     (case round64 (of_int n) of
        Fin d \<Rightarrow> Inr d
      | PosInf \<Rightarrow> Inl OverflowError
      | NegInf \<Rightarrow> Inl OverflowError
      | NaN \<Rightarrow> Inl OverflowError)"

text \<open>
  \<open>float(v)\<close>. What \<open>float\<close> makes of a string is the language's business, not this
  repository's: \<open>str_float\<close> is that parser, \<open>None\<close> where it raises \<open>ValueError\<close>.
\<close>

definition py_float :: "(string \<Rightarrow> pyfloat option) \<Rightarrow> pyval \<Rightarrow> pyexc + pyfloat" where
  "py_float str_float v =
     (case v of
        PInt n \<Rightarrow> (case to_double n of Inl e \<Rightarrow> Inl e | Inr d \<Rightarrow> Inr (Fin d))
      | PFloat f \<Rightarrow> Inr f
      | PStr s \<Rightarrow> (case str_float s of None \<Rightarrow> Inl ValueError | Some f \<Rightarrow> Inr f)
      | PNone \<Rightarrow> Inl TypeError
      | PList xs \<Rightarrow> Inl TypeError
      | PDict kvs \<Rightarrow> Inl TypeError)"

text \<open>
  \<open>v[i]\<close> for the literal indices 0 to 3: a list or string out of range raises
  \<open>IndexError\<close>, a number or \<open>None\<close> is not subscriptable, and a dictionary with string
  keys has no key \<open>i\<close>. The characters of a string stand for its code points.
\<close>

definition py_subscript :: "pyval \<Rightarrow> nat \<Rightarrow> pyexc + pyval" where
  "py_subscript v i =
     (case v of
        PInt n \<Rightarrow> Inl TypeError
      | PFloat f \<Rightarrow> Inl TypeError
      | PStr s \<Rightarrow> (if i < length s then Inr (PStr [s ! i]) else Inl IndexError)
      | PNone \<Rightarrow> Inl TypeError
      | PList xs \<Rightarrow> (if i < length xs then Inr (xs ! i) else Inl IndexError)
      | PDict kvs \<Rightarrow> Inl KeyError)"

text \<open>
  \<open>float(ann.get(k, ann.get('bbox', [0, 0, 0, 0])[i]))\<close>: the default is evaluated first,
  so a malformed \<open>bbox\<close> raises even when the key \<open>k\<close> is present.
\<close>

definition get_or_bbox ::
  "(string \<Rightarrow> pyfloat option) \<Rightarrow> annotation \<Rightarrow> string \<Rightarrow> nat \<Rightarrow> pyexc + pyfloat" where
  "get_or_bbox str_float ann k i =
     (case py_subscript (case ann ''bbox'' of
                           None \<Rightarrow> PList [PInt 0, PInt 0, PInt 0, PInt 0]
                         | Some b \<Rightarrow> b) i of
        Inl e \<Rightarrow> Inl e
      | Inr d \<Rightarrow> py_float str_float (case ann k of None \<Rightarrow> d | Some v \<Rightarrow> v))"

text \<open>The four assignments \<open>x_min, y_min, width, height\<close>, in the source's order.\<close>

definition read_box ::
  "(string \<Rightarrow> pyfloat option) \<Rightarrow> annotation
     \<Rightarrow> pyexc + (pyfloat \<times> pyfloat \<times> pyfloat \<times> pyfloat)" where
  "read_box str_float ann =
     (case get_or_bbox str_float ann ''x'' 0 of
        Inl e \<Rightarrow> Inl e
      | Inr x_min \<Rightarrow>
     (case get_or_bbox str_float ann ''y'' 1 of
        Inl e \<Rightarrow> Inl e
      | Inr y_min \<Rightarrow>
     (case get_or_bbox str_float ann ''width'' 2 of
        Inl e \<Rightarrow> Inl e
      | Inr width \<Rightarrow>
     (case get_or_bbox str_float ann ''height'' 3 of
        Inl e \<Rightarrow> Inl e
      | Inr height \<Rightarrow> Inr (x_min, y_min, width, height)))))"

text \<open>
  \<open>class_name is None or class_name not in class_name_to_id\<close>, then
  \<open>class_name_to_id[class_name]\<close>: \<open>Inr None\<close> is the skip with a warning. A number is
  hashable and is no key of a map from names; a list or a dictionary is unhashable, and the
  membership test raises \<open>TypeError\<close>.
\<close>

definition lookup_class :: "(string \<rightharpoonup> int) \<Rightarrow> pyval option \<Rightarrow> pyexc + int option" where
  "lookup_class class_name_to_id class_name =
     (case class_name of
        None \<Rightarrow> Inr None
      | Some PNone \<Rightarrow> Inr None
      | Some (PStr s) \<Rightarrow> Inr (class_name_to_id s)
      | Some (PInt n) \<Rightarrow> Inr None
      | Some (PFloat f) \<Rightarrow> Inr None
      | Some (PList xs) \<Rightarrow> Inl TypeError
      | Some (PDict kvs) \<Rightarrow> Inl TypeError)"

text \<open>
  Decimal text of an integer (\<open>str\<close>), and \<open>format(v, '.6f')\<close>: the decimal with six digits
  nearest to the value of the double, a tie going to the even last digit.
\<close>

definition digit_char :: "nat \<Rightarrow> char" where
  "digit_char d = ''0123456789'' ! d"

fun nat_str :: "nat \<Rightarrow> string" where
  "nat_str n =
     (if n < 10 then [digit_char n] else nat_str (n div 10) @ [digit_char (n mod 10)])"

declare nat_str.simps [simp del]

definition int_str :: "int \<Rightarrow> string" where
  "int_str i = (if i < 0 then CHR ''-'' # nat_str (nat (- i)) else nat_str (nat i))"

definition fmt6 :: "rat \<Rightarrow> string" where
  "fmt6 v =
     (let n = nat (round_half_even (\<bar>v\<bar> * 1000000));
          frac = nat_str (n mod 1000000)
      in (if v < 0 then ''-'' else []) @ nat_str (n div 1000000) @ ''.''
         @ replicate (6 - length frac) CHR ''0'' @ frac)"

definition format_6f :: "pyfloat \<Rightarrow> string" where
  "format_6f v =
     (case v of Fin r \<Rightarrow> fmt6 r | PosInf \<Rightarrow> ''inf'' | NegInf \<Rightarrow> ''-inf'' | NaN \<Rightarrow> ''nan'')"

text \<open>The f-string \<open>{class_id} {x:.6f} {y:.6f} {w:.6f} {h:.6f}\<close>.\<close>

definition yolo_line :: "int \<Rightarrow> pyfloat \<Rightarrow> pyfloat \<Rightarrow> pyfloat \<Rightarrow> pyfloat \<Rightarrow> string" where
  "yolo_line cid x_center_norm y_center_norm width_norm height_norm =
     int_str cid @ '' '' @ format_6f x_center_norm @ '' '' @ format_6f y_center_norm
       @ '' '' @ format_6f width_norm @ '' '' @ format_6f height_norm"

text \<open>The two \<open>logging.warning\<close> calls, and what one pass of the loop body leaves.\<close>

datatype warning = UnknownCategory annotation | SkippedError pyexc annotation

datatype outcome = Line string | Skipped warning

text \<open>
  The body of the \<open>try\<close> block: \<open>Inl\<close> is an exception raised inside it. The image sizes
  are \<open>int\<close>s, converted where the first division by each of them is evaluated.
\<close>

definition annotation_body ::
  "(string \<Rightarrow> pyfloat option) \<Rightarrow> (string \<rightharpoonup> int) \<Rightarrow> int \<Rightarrow> int \<Rightarrow> annotation
     \<Rightarrow> pyexc + outcome" where
  "annotation_body str_float class_name_to_id image_width image_height ann =
     (case lookup_class class_name_to_id (ann ''category_name'') of
        Inl e \<Rightarrow> Inl e
      | Inr None \<Rightarrow> Inr (Skipped (UnknownCategory ann))
      | Inr (Some cid) \<Rightarrow>
          (case read_box str_float ann of
             Inl e \<Rightarrow> Inl e
           | Inr (x_min, y_min, width, height) \<Rightarrow>
               let x_center = fl_add x_min (fl_div width 2);
                   y_center = fl_add y_min (fl_div height 2)
               in (case to_double image_width of
                     Inl e \<Rightarrow> Inl e
                   | Inr w \<Rightarrow>
                  (case to_double image_height of
                     Inl e \<Rightarrow> Inl e
                   | Inr h \<Rightarrow>
                       let x_center_norm = fl_div x_center w;
                           y_center_norm = fl_div y_center h;
                           width_norm = fl_div width w;
                           height_norm = fl_div height h
                       in Inr (Line (yolo_line cid (clamp01 x_center_norm)
                                       (clamp01 y_center_norm) (clamp01 width_norm)
                                       (clamp01 height_norm)))))))"

text \<open>
  The \<open>except (KeyError, TypeError, ValueError, IndexError)\<close> clause: an exception of one
  of these four classes is logged and the loop goes on; any other leaves the function.
\<close>

definition caught :: "pyexc \<Rightarrow> bool" where
  "caught e =
     (case e of
        KeyError \<Rightarrow> True
      | TypeError \<Rightarrow> True
      | ValueError \<Rightarrow> True
      | IndexError \<Rightarrow> True
      | OverflowError \<Rightarrow> False)"

definition process_annotation ::
  "(string \<Rightarrow> pyfloat option) \<Rightarrow> (string \<rightharpoonup> int) \<Rightarrow> int \<Rightarrow> int \<Rightarrow> annotation
     \<Rightarrow> pyexc + outcome" where
  "process_annotation str_float class_name_to_id image_width image_height ann =
     (case annotation_body str_float class_name_to_id image_width image_height ann of
        Inl e \<Rightarrow> if caught e then Inr (Skipped (SkippedError e ann)) else Inl e
      | Inr out \<Rightarrow> Inr out)"

text \<open>The \<open>for\<close> loop: it ends at the first exception that leaves the loop body.\<close>

fun for_annotations ::
  "(string \<Rightarrow> pyfloat option) \<Rightarrow> (string \<rightharpoonup> int) \<Rightarrow> int \<Rightarrow> int \<Rightarrow> annotation list
     \<Rightarrow> pyexc + outcome list" where
  "for_annotations str_float class_name_to_id image_width image_height [] = Inr []"
| "for_annotations str_float class_name_to_id image_width image_height (ann # anns) =
     (case process_annotation str_float class_name_to_id image_width image_height ann of
        Inl e \<Rightarrow> Inl e
      | Inr out \<Rightarrow>
          (case for_annotations str_float class_name_to_id image_width image_height anns of
             Inl e \<Rightarrow> Inl e
           | Inr outs \<Rightarrow> Inr (out # outs)))"

fun lines_of :: "outcome list \<Rightarrow> string list" where
  "lines_of [] = []"
| "lines_of (Line l # outs) = l # lines_of outs"
| "lines_of (Skipped w # outs) = lines_of outs"

fun warnings_of :: "outcome list \<Rightarrow> warning list" where
  "warnings_of [] = []"
| "warnings_of (Line l # outs) = warnings_of outs"
| "warnings_of (Skipped w # outs) = w # warnings_of outs"

text \<open>The join of the lines with a newline between them.\<close>

fun join_lines :: "string list \<Rightarrow> string" where
  "join_lines [] = []"
| "join_lines [l] = l"
| "join_lines (l # ls) = l @ [CHR 0x0A] @ join_lines ls"

text \<open>
  The function returns the text, or raises: \<open>Inl\<close> is the exception that leaves it. The
  second component of a result is the list of warnings logged.
\<close>

definition convert_to_yolo_format ::
  "(string \<Rightarrow> pyfloat option) \<Rightarrow> annotation list \<Rightarrow> int \<Rightarrow> int \<Rightarrow> (string \<rightharpoonup> int)
     \<Rightarrow> pyexc + string \<times> warning list" where
  "convert_to_yolo_format str_float annotations image_width image_height class_name_to_id =
     (if annotations = [] \<or> image_width \<le> 0 \<or> image_height \<le> 0 then Inr ([], [])
      else
        (case for_annotations str_float class_name_to_id image_width image_height annotations of
           Inl e \<Rightarrow> Inl e
         | Inr outs \<Rightarrow> Inr (join_lines (lines_of outs), warnings_of outs)))"

section \<open>Concrete states and inputs\<close>

definition obj_at :: "rat \<Rightarrow> annotated_object" where
  "obj_at v =
     \<lparr>class_id = 0,
      bbox = \<lparr>bbox0 = v, bbox1 = v, bbox2 = v + 1 / 10, bbox3 = v + 1 / 10\<rparr>,
      mask_pts = None, confidence = 1 / 2\<rparr>"

text \<open>Three objects on image \<open>img\<close>, the third one hidden.\<close>

definition store3 :: app_state where
  "store3 =
     \<lparr>currentImage = Some ''img'', detectionMode = TEXT_PROMPT,
      imagePrompts = \<lparr>bboxes = [], cls = []\<rparr>,
      detectionResults = [''img'' \<mapsto>
        \<lparr>classes = [''a''], objects = [obj_at 0, obj_at (1 / 10), obj_at (2 / 10)]\<rparr>],
      hiddenObjects = [''img'' \<mapsto> [2]]\<rparr>"

text \<open>An image with no result set and no prompts yet, in a given detection mode.\<close>

definition emptyApp :: "detection_mode \<Rightarrow> app_state" where
  "emptyApp m =
     \<lparr>currentImage = Some ''img'', detectionMode = m,
      imagePrompts = \<lparr>bboxes = [], cls = []\<rparr>,
      detectionResults = Map.empty, hiddenObjects = Map.empty\<rparr>"

text \<open>A canvas in draw mode on a 200 by 100 image, with a box being drawn.\<close>

definition drawnCanvas :: "app_state \<Rightarrow> abs_box \<Rightarrow> canvas" where
  "drawnCanvas a cb =
     \<lparr>app = a, loadedImage = Some (200, 100), scale = 1, drawing = True,
      startPoint = (box_x cb, box_y cb), currentBox = Some cb, selectedObjectIndex = None,
      editMode = DRAW, stagePosition = (0, 0), isDragging = False\<rparr>"

definition box100x50 :: abs_box where
  "box100x50 = \<lparr>box_x = 0, box_y = 0, box_width = 100, box_height = 50\<rparr>"

definition box3x50 :: abs_box where
  "box3x50 = \<lparr>box_x = 0, box_y = 0, box_width = 3, box_height = 50\<rparr>"

text \<open>
  A \<open>float\<close> parser that accepts no string, a class map, annotations with a box, and an
  \<open>int\<close> beyond the range of the doubles.
\<close>

definition no_numeric_strings :: "string \<Rightarrow> pyfloat option" where
  "no_numeric_strings s = None"

definition class_map :: "string \<rightharpoonup> int" where
  "class_map = [''person'' \<mapsto> 0, ''car'' \<mapsto> 1]"

definition beyond_double :: int where
  "beyond_double = 10 ^ 400"

definition ann_box :: "string \<Rightarrow> pyval list \<Rightarrow> annotation" where
  "ann_box name b = [''category_name'' \<mapsto> PStr name, ''bbox'' \<mapsto> PList b]"

text \<open>A rounding function for the examples: to the nearest multiple of \<open>1e-9\<close>.\<close>

definition round9 :: "rat \<Rightarrow> rat" where
  "round9 v = of_int (round_half_even (v * 1000000000)) / 1000000000"



section \<open>Properties of the object store\<close>

lemma currentHiddenObjects_remove:
  "currentHiddenObjects (removeBboxFromResults k s) =
     (if k \<in> set (currentHiddenObjects s)
      then map (\<lambda>i. if i > k then i - 1 else i)
             (filter (\<lambda>i. i \<noteq> k) (currentHiddenObjects s))
      else currentHiddenObjects s)"
  by (auto simp: removeBboxFromResults_def currentHiddenObjects_def Let_def
      split: option.splits)

lemma currentResults_remove:
  "currentResults (removeBboxFromResults k s) =
     map_option (\<lambda>r. r\<lparr>objects := splice1 k (objects r)\<rparr>) (currentResults s)"
  by (auto simp: removeBboxFromResults_def currentResults_def Let_def split: option.splits)

text \<open>
  C1 (removing object \<open>k\<close> renumbers the hidden indices whether or not \<open>k\<close> was hidden):
  the code renumbers only when \<open>k\<close> itself is hidden. Here object 0 of three is removed
  while only index 2 is hidden: the two remaining objects sit at indices 0 and 1, and the
  hidden list is still \<open>[2]\<close>, so the formerly hidden object, now at index 1, is shown.
\<close>

theorem removeBboxFromResults_keeps_stale_hidden_index:
  "currentHiddenObjects (removeBboxFromResults 0 store3) = [2]
   \<and> map_option objects (currentResults (removeBboxFromResults 0 store3)) =
       Some [obj_at (1 / 10), obj_at (2 / 10)]"
  by (simp add: currentHiddenObjects_remove currentResults_remove)
     (simp add: store3_def currentHiddenObjects_def currentResults_def splice1_def)

text \<open>
  C10 (\<open>updateBboxInResults(i, b, null)\<close> replaces only the bbox of object \<open>i\<close>): for an
  index in range the new result set has the same classes and as many objects, object \<open>i\<close>
  has the new bbox and its former mask, class id and confidence, every other object is
  the same; the hidden indices, the current image and the other images' results are
  untouched. Without an object at the index (out of range, or no result set) the state
  is returned unchanged, whatever mask is passed.
\<close>

theorem updateBboxInResults_null_mask_frame:
  "(\<forall>r. currentResults s = Some r \<and> index < length (objects r) \<longrightarrow>
      (\<exists>r'. currentResults (updateBboxInResults index b None s) = Some r'
         \<and> classes r' = classes r
         \<and> length (objects r') = length (objects r)
         \<and> bbox (objects r' ! index) = b
         \<and> mask_pts (objects r' ! index) = mask_pts (objects r ! index)
         \<and> class_id (objects r' ! index) = class_id (objects r ! index)
         \<and> confidence (objects r' ! index) = confidence (objects r ! index)
         \<and> (\<forall>j. j < length (objects r) \<and> j \<noteq> index \<longrightarrow>
               objects r' ! j = objects r ! j)))
   \<and> hiddenObjects (updateBboxInResults index b None s) = hiddenObjects s
   \<and> currentImage (updateBboxInResults index b None s) = currentImage s
   \<and> imagePrompts (updateBboxInResults index b None s) = imagePrompts s
   \<and> (\<forall>c. Some c \<noteq> currentImage s \<longrightarrow>
          detectionResults (updateBboxInResults index b None s) c = detectionResults s c)
   \<and> ((\<forall>r. currentResults s = Some r \<longrightarrow> length (objects r) \<le> index) \<longrightarrow>
          updateBboxInResults index b m s = s)"
  by (auto simp: updateBboxInResults_def currentResults_def Let_def split: option.splits)

theorem updateBboxInResults_null_mask_frame_witness:
  "currentResults store3 =
     Some \<lparr>classes = [''a''], objects = [obj_at 0, obj_at (1 / 10), obj_at (2 / 10)]\<rparr>
   \<and> (1::nat) < length [obj_at 0, obj_at (1 / 10), obj_at (2 / 10)]
   \<and> map_option objects (currentResults
        (updateBboxInResults 1 \<lparr>bbox0 = 0, bbox1 = 0, bbox2 = 1, bbox3 = 1\<rparr> None store3)) =
       Some [obj_at 0,
             (obj_at (1 / 10))\<lparr>bbox := \<lparr>bbox0 = 0, bbox1 = 0, bbox2 = 1, bbox3 = 1\<rparr>\<rparr>,
             obj_at (2 / 10)]
   \<and> currentHiddenObjects
        (updateBboxInResults 1 \<lparr>bbox0 = 0, bbox1 = 0, bbox2 = 1, bbox3 = 1\<rparr> None store3) = [2]
   \<and> updateBboxInResults 3 \<lparr>bbox0 = 0, bbox1 = 0, bbox2 = 1, bbox3 = 1\<rparr> None store3 = store3"
  using updateBboxInResults_null_mask_frame
    [of store3 1 "\<lparr>bbox0 = 0, bbox1 = 0, bbox2 = 1, bbox3 = 1\<rparr>" None]
    updateBboxInResults_null_mask_frame
    [of store3 3 "\<lparr>bbox0 = 0, bbox1 = 0, bbox2 = 1, bbox3 = 1\<rparr>" None]
  by (simp add: store3_def currentResults_def currentHiddenObjects_def
      updateBboxInResults_def Let_def)

section \<open>Properties of the coordinate helpers\<close>

lemma rounding_step:
  assumes R: "rounding_within u eta rnd" and u: "u \<le> 1 / 100000000"
    and e: "eta \<le> 1 / 100000000"
  shows "\<bar>rnd v - v\<bar> \<le> \<bar>v\<bar> / 100000000 + 1 / 100000000"
proof -
  have "\<bar>rnd v - v\<bar> \<le> u * \<bar>v\<bar> + eta" using R by (simp add: rounding_within_def)
  moreover have "u * \<bar>v\<bar> \<le> (1 / 100000000) * \<bar>v\<bar>"
    using u by (intro mult_right_mono) simp_all
  ultimately show ?thesis using e by simp
qed

lemma rounded_le:
  fixes rnd :: "rat \<Rightarrow> rat"
  assumes st: "\<And>v. \<bar>rnd v - v\<bar> \<le> \<bar>v\<bar> / 100000000 + 1 / 100000000"
    and v: "\<bar>v\<bar> \<le> M"
  shows "\<bar>rnd v - v\<bar> \<le> M / 100000000 + 1 / 100000000"
proof -
  have "\<bar>rnd v - v\<bar> \<le> \<bar>v\<bar> / 100000000 + 1 / 100000000" by (rule st)
  also have "\<dots> \<le> M / 100000000 + 1 / 100000000"
    using v by (simp add: divide_right_mono)
  finally show ?thesis .
qed

lemma quotient_error:
  fixes W s b c :: rat
  assumes "0 < W" "\<bar>s - b * W\<bar> \<le> c * W / 100000000"
  shows "\<bar>s / W - b\<bar> \<le> c / 100000000"
proof -
  have d: "s / W - b = (s - b * W) / W" using assms(1) by (simp add: field_simps)
  have "\<bar>s / W - b\<bar> = \<bar>s - b * W\<bar> / W" unfolding d using assms(1) by simp
  also have "\<dots> \<le> (c * W / 100000000) / W"
    using assms by (intro divide_right_mono) simp_all
  also have "\<dots> = c / 100000000" using assms(1) by simp
  finally show ?thesis .
qed

lemma product_error:
  fixes W D d c :: rat
  assumes "0 < W" "\<bar>D - d\<bar> \<le> c / 100000000"
  shows "\<bar>D * W - d * W\<bar> \<le> c * W / 100000000"
proof -
  have "\<bar>D * W - d * W\<bar> = \<bar>D - d\<bar> * W"
    using assms(1) by (simp add: abs_mult left_diff_distrib[symmetric])
  also have "\<dots> \<le> (c / 100000000) * W" using assms by (intro mult_right_mono) simp_all
  finally show ?thesis by simp
qed

lemma rounded_origin_roundtrip:
  fixes rnd :: "rat \<Rightarrow> rat" and W a :: rat
  assumes st: "\<And>v. \<bar>rnd v - v\<bar> \<le> \<bar>v\<bar> / 100000000 + 1 / 100000000"
    and W: "1 \<le> W" and a: "0 \<le> a" "a \<le> 1"
  shows "\<bar>rnd (rnd (a * W) / W) - a\<bar> \<le> 1 / 1000000"
proof -
  let ?t = "a * W"
  let ?X = "rnd ?t"
  let ?q = "?X / W"
  have Wpos: "0 < W" using W by simp
  have t: "0 \<le> ?t" "?t \<le> W" using a W by (simp_all add: mult_left_le_one_le)
  have "\<bar>?t\<bar> \<le> W" using t by simp
  then have X: "\<bar>?X - ?t\<bar> \<le> 2 * W / 100000000"
    using rounded_le[OF st, of ?t W] W by linarith
  have q: "\<bar>?q - a\<bar> \<le> 2 / 100000000" using quotient_error[OF Wpos X] .
  then have "\<bar>?q\<bar> \<le> 2" using a by linarith
  then have r: "\<bar>rnd ?q - ?q\<bar> \<le> 3 / 100000000"
    using rounded_le[OF st, of ?q 2] by linarith
  show ?thesis using q r by linarith
qed

lemma rounded_corner_roundtrip:
  fixes rnd :: "rat \<Rightarrow> rat" and W a b :: rat
  assumes st: "\<And>v. \<bar>rnd v - v\<bar> \<le> \<bar>v\<bar> / 100000000 + 1 / 100000000"
    and W: "1 \<le> W" and a: "0 \<le> a" "a \<le> b" "b \<le> 1"
  shows "\<bar>rnd (rnd (rnd (a * W) + rnd (rnd (b - a) * W)) / W) - b\<bar> \<le> 1 / 1000000"
proof -
  let ?t = "a * W"
  let ?X = "rnd ?t"
  let ?d = "b - a"
  let ?D = "rnd ?d"
  let ?Wd = "rnd (?D * W)"
  let ?S = "rnd (?X + ?Wd)"
  let ?q = "?S / W"
  have Wpos: "0 < W" using W by simp
  have t: "0 \<le> ?t" "?t \<le> W" using a W by (simp_all add: mult_left_le_one_le)
  have "\<bar>?t\<bar> \<le> W" using t by simp
  then have X: "\<bar>?X - ?t\<bar> \<le> 2 * W / 100000000"
    using rounded_le[OF st, of ?t W] W by linarith
  have "\<bar>?d\<bar> \<le> 1" using a by linarith
  then have D: "\<bar>?D - ?d\<bar> \<le> 2 / 100000000"
    using rounded_le[OF st, of ?d 1] by linarith
  have DW: "\<bar>?D * W - ?d * W\<bar> \<le> 2 * W / 100000000" using product_error[OF Wpos D] .
  have dW: "0 \<le> ?d * W" "?d * W \<le> W"
    using a W by (simp_all add: mult_left_le_one_le)
  have "\<bar>?D * W\<bar> \<le> 2 * W" using DW dW W by linarith
  then have "\<bar>?Wd - ?D * W\<bar> \<le> 2 * W / 100000000 + 1 / 100000000"
    using rounded_le[OF st, of "?D * W" "2 * W"] by simp
  then have Wd: "\<bar>?Wd - ?d * W\<bar> \<le> 5 * W / 100000000"
    using DW W by linarith
  have sum: "?t + ?d * W = b * W" by (simp add: algebra_simps)
  have bW: "0 \<le> b * W" "b * W \<le> W" using a W by (simp_all add: mult_left_le_one_le)
  have XWd: "\<bar>(?X + ?Wd) - b * W\<bar> \<le> 7 * W / 100000000"
    using X Wd sum by linarith
  have "\<bar>?X + ?Wd\<bar> \<le> 2 * W" using XWd bW W by linarith
  then have "\<bar>?S - (?X + ?Wd)\<bar> \<le> 2 * W / 100000000 + 1 / 100000000"
    using rounded_le[OF st, of "?X + ?Wd" "2 * W"] by simp
  then have S: "\<bar>?S - b * W\<bar> \<le> 10 * W / 100000000"
    using XWd W by linarith
  have q: "\<bar>?q - b\<bar> \<le> 10 / 100000000" using quotient_error[OF Wpos S] .
  then have "\<bar>?q\<bar> \<le> 2" using a by linarith
  then have r: "\<bar>rnd ?q - ?q\<bar> \<le> 3 / 100000000"
    using rounded_le[OF st, of ?q 2] by linarith
  show ?thesis using q r by linarith
qed

lemma rounded_roundtrip:
  assumes R: "rounding_within u eta rnd" and u: "u \<le> 1 / 100000000"
    and e: "eta \<le> 1 / 100000000"
    and W: "1 \<le> imgW" "1 \<le> imgH"
    and hx: "0 \<le> bbox0 b" "bbox0 b \<le> bbox2 b" "bbox2 b \<le> 1"
    and hy: "0 \<le> bbox1 b" "bbox1 b \<le> bbox3 b" "bbox3 b \<le> 1"
  shows "\<bar>bbox0 (normalizeBox_fl rnd (denormalizeBbox_fl rnd b imgW imgH) imgW imgH)
            - bbox0 b\<bar> \<le> 1 / 1000000"
    and "\<bar>bbox1 (normalizeBox_fl rnd (denormalizeBbox_fl rnd b imgW imgH) imgW imgH)
            - bbox1 b\<bar> \<le> 1 / 1000000"
    and "\<bar>bbox2 (normalizeBox_fl rnd (denormalizeBbox_fl rnd b imgW imgH) imgW imgH)
            - bbox2 b\<bar> \<le> 1 / 1000000"
    and "\<bar>bbox3 (normalizeBox_fl rnd (denormalizeBbox_fl rnd b imgW imgH) imgW imgH)
            - bbox3 b\<bar> \<le> 1 / 1000000"
proof -
  have st: "\<And>v. \<bar>rnd v - v\<bar> \<le> \<bar>v\<bar> / 100000000 + 1 / 100000000"
    using rounding_step[OF R u e] .
  have x1: "bbox0 b \<le> 1" and y1: "bbox1 b \<le> 1" using hx hy by linarith+
  show "\<bar>bbox0 (normalizeBox_fl rnd (denormalizeBbox_fl rnd b imgW imgH) imgW imgH)
            - bbox0 b\<bar> \<le> 1 / 1000000"
    using rounded_origin_roundtrip[OF st W(1) hx(1) x1]
    by (simp add: normalizeBox_fl_def denormalizeBbox_fl_def)
  show "\<bar>bbox1 (normalizeBox_fl rnd (denormalizeBbox_fl rnd b imgW imgH) imgW imgH)
            - bbox1 b\<bar> \<le> 1 / 1000000"
    using rounded_origin_roundtrip[OF st W(2) hy(1) y1]
    by (simp add: normalizeBox_fl_def denormalizeBbox_fl_def)
  show "\<bar>bbox2 (normalizeBox_fl rnd (denormalizeBbox_fl rnd b imgW imgH) imgW imgH)
            - bbox2 b\<bar> \<le> 1 / 1000000"
    using rounded_corner_roundtrip[OF st W(1) hx]
    by (simp add: normalizeBox_fl_def denormalizeBbox_fl_def)
  show "\<bar>bbox3 (normalizeBox_fl rnd (denormalizeBbox_fl rnd b imgW imgH) imgW imgH)
            - bbox3 b\<bar> \<le> 1 / 1000000"
    using rounded_corner_roundtrip[OF st W(2) hy]
    by (simp add: normalizeBox_fl_def denormalizeBbox_fl_def)
qed

lemma exact_is_unrounded:
  "denormalizeBbox_fl (\<lambda>v. v) b imgW imgH = denormalizeBbox b imgW imgH"
  "normalizeBox_fl (\<lambda>v. v) cb imgW imgH = normalizeBox cb imgW imgH"
  by (simp_all add: denormalizeBbox_fl_def denormalizeBbox_def normalizeBox_fl_def
      normalizeBox_def)

lemma round_half_even_error: "\<bar>of_int (round_half_even x) - x\<bar> \<le> 1 / 2"
proof -
  define q where "q = \<lfloor>x\<rfloor>"
  define r where "r = x - of_int q"
  have r: "0 \<le> r" "r < 1" unfolding r_def q_def by linarith+
  have x: "x = of_int q + r" by (simp add: r_def)
  have rh: "round_half_even x =
      (if r < 1 / 2 then q else if 1 / 2 < r then q + 1 else if even q then q else q + 1)"
    by (simp add: round_half_even_def Let_def q_def r_def)
  have lo: "\<bar>of_int q - x\<bar> = r" using r by (simp add: x)
  have hi: "\<bar>of_int (q + 1) - x\<bar> = 1 - r" using r by (simp add: x)
  consider "r < 1 / 2" | "1 / 2 < r" | "r = 1 / 2" by linarith
  then show ?thesis
  proof cases
    case 1
    then show ?thesis unfolding rh using lo by simp
  next
    case 2
    then have "round_half_even x = q + 1" unfolding rh by simp
    then show ?thesis using hi 2 by simp
  next
    case 3
    then have "round_half_even x = q \<or> round_half_even x = q + 1" unfolding rh by simp
    then show ?thesis using lo hi 3 by auto
  qed
qed

lemma round9_rounding: "rounding_within 0 (1 / 100000000) round9"
proof -
  have "\<bar>round9 v - v\<bar> \<le> 1 / 100000000" for v
  proof -
    let ?n = "round_half_even (v * 1000000000)"
    have eq: "round9 v - v = (of_int ?n - v * 1000000000) / 1000000000"
      by (simp add: round9_def diff_divide_distrib)
    have "\<bar>round9 v - v\<bar> = \<bar>of_int ?n - v * 1000000000\<bar> / 1000000000"
      unfolding eq by (simp add: abs_divide)
    also have "\<dots> \<le> (1 / 2) / 1000000000"
      using round_half_even_error[of "v * 1000000000"] by (intro divide_right_mono) simp_all
    finally show ?thesis by simp
  qed
  then show ?thesis by (simp add: rounding_within_def)
qed

lemma round_half_even_unique:
  assumes "of_int n - 1 / 2 < x" "x < of_int n + 1 / 2"
  shows "round_half_even x = n"
proof -
  have "\<bar>of_int (round_half_even x) - x\<bar> \<le> 1 / 2" by (rule round_half_even_error)
  then have "\<bar>(of_int (round_half_even x) :: rat) - of_int n\<bar> < 1" using assms by linarith
  then have "\<bar>(of_int (round_half_even x - n) :: rat)\<bar> < 1" by simp
  then have "\<bar>round_half_even x - n\<bar> < 1"
    by (metis of_int_abs of_int_less_1_iff)
  then show ?thesis by linarith
qed

lemma round9_third_roundtrip:
  "round9 (round9 (640 / 3) / 640) = 333333333 / 1000000000"
proof -
  have a: "round_half_even (640 / 3 * 1000000000) = 213333333333"
    by (rule round_half_even_unique) simp_all
  have b: "round9 (640 / 3) = 213333333333 / 1000000000"
    unfolding round9_def a by simp
  have c: "round_half_even (213333333333 / 1000000000 / 640 * 1000000000) = 333333333"
    by (rule round_half_even_unique) simp_all
  show ?thesis
    unfolding b unfolding round9_def c by simp
qed

text \<open>
  C7 (normalized to absolute and back): for positive image sizes, converting a box to
  absolute pixels with \<open>denormalizeBbox\<close> and back with the normalisation of
  \<open>handleMouseUp\<close> returns the box in exact arithmetic, and so does the corner form inside
  \<open>shiftBboxAndMask\<close> at offset zero. When every operation is rounded, with relative and
  absolute error at most \<open>1e-8\<close> (doubles are far below), image sizes of at least one
  pixel and a box with \<open>0 \<le> x1 \<le> x2 \<le> 1\<close> and \<open>0 \<le> y1 \<le> y2 \<le> 1\<close>, each component of
  the result is within \<open>1e-6\<close> of the original.
\<close>

theorem normalize_denormalize_roundtrip:
  "(0 < imgW \<and> 0 < imgH \<longrightarrow>
      normalizeBox (denormalizeBbox b imgW imgH) imgW imgH = b
      \<and> nbbox (shiftBboxAndMask obj 0 0 imgW imgH) = bbox obj)
   \<and> (rounding_within u eta rnd \<and> u \<le> 1 / 100000000 \<and> eta \<le> 1 / 100000000
       \<and> 1 \<le> imgW \<and> 1 \<le> imgH
       \<and> 0 \<le> bbox0 b \<and> bbox0 b \<le> bbox2 b \<and> bbox2 b \<le> 1
       \<and> 0 \<le> bbox1 b \<and> bbox1 b \<le> bbox3 b \<and> bbox3 b \<le> 1 \<longrightarrow>
       \<bar>bbox0 (normalizeBox_fl rnd (denormalizeBbox_fl rnd b imgW imgH) imgW imgH)
          - bbox0 b\<bar> \<le> 1 / 1000000
       \<and> \<bar>bbox1 (normalizeBox_fl rnd (denormalizeBbox_fl rnd b imgW imgH) imgW imgH)
          - bbox1 b\<bar> \<le> 1 / 1000000
       \<and> \<bar>bbox2 (normalizeBox_fl rnd (denormalizeBbox_fl rnd b imgW imgH) imgW imgH)
          - bbox2 b\<bar> \<le> 1 / 1000000
       \<and> \<bar>bbox3 (normalizeBox_fl rnd (denormalizeBbox_fl rnd b imgW imgH) imgW imgH)
          - bbox3 b\<bar> \<le> 1 / 1000000)"
proof (intro conjI impI)
  assume pos: "0 < imgW \<and> 0 < imgH"
  then show "normalizeBox (denormalizeBbox b imgW imgH) imgW imgH = b"
    by (simp add: normalizeBox_def denormalizeBbox_def algebra_simps
        add_divide_distrib diff_divide_distrib)
  show "nbbox (shiftBboxAndMask obj 0 0 imgW imgH) = bbox obj"
    using pos by (simp add: shiftBboxAndMask_def)
next
  assume h: "rounding_within u eta rnd \<and> u \<le> 1 / 100000000 \<and> eta \<le> 1 / 100000000
       \<and> 1 \<le> imgW \<and> 1 \<le> imgH
       \<and> 0 \<le> bbox0 b \<and> bbox0 b \<le> bbox2 b \<and> bbox2 b \<le> 1
       \<and> 0 \<le> bbox1 b \<and> bbox1 b \<le> bbox3 b \<and> bbox3 b \<le> 1"
  note r = rounded_roundtrip [of u eta rnd imgW imgH b]
  show "\<bar>bbox0 (normalizeBox_fl rnd (denormalizeBbox_fl rnd b imgW imgH) imgW imgH)
          - bbox0 b\<bar> \<le> 1 / 1000000"
    using h by (intro r(1)) simp_all
  show "\<bar>bbox1 (normalizeBox_fl rnd (denormalizeBbox_fl rnd b imgW imgH) imgW imgH)
          - bbox1 b\<bar> \<le> 1 / 1000000"
    using h by (intro r(2)) simp_all
  show "\<bar>bbox2 (normalizeBox_fl rnd (denormalizeBbox_fl rnd b imgW imgH) imgW imgH)
          - bbox2 b\<bar> \<le> 1 / 1000000"
    using h by (intro r(3)) simp_all
  show "\<bar>bbox3 (normalizeBox_fl rnd (denormalizeBbox_fl rnd b imgW imgH) imgW imgH)
          - bbox3 b\<bar> \<le> 1 / 1000000"
    using h by (intro r(4)) simp_all
qed

theorem normalize_denormalize_roundtrip_witness:
  "(0::rat) < 640 \<and> (0::rat) < 480
   \<and> normalizeBox (denormalizeBbox \<lparr>bbox0 = 1 / 3, bbox1 = 1 / 5, bbox2 = 1 / 2, bbox3 = 1\<rparr>
        640 480) 640 480 = \<lparr>bbox0 = 1 / 3, bbox1 = 1 / 5, bbox2 = 1 / 2, bbox3 = 1\<rparr>
   \<and> denormalizeBbox \<lparr>bbox0 = 1 / 10, bbox1 = 1 / 5, bbox2 = 1 / 2, bbox3 = 1\<rparr> 640 480
       = \<lparr>box_x = 64, box_y = 96, box_width = 256, box_height = 384\<rparr>
   \<and> rounding_within 0 (1 / 100000000) round9
   \<and> (0::rat) \<le> 1 / 100000000 \<and> (1::rat) \<le> 640 \<and> (1::rat) \<le> 480
   \<and> bbox0 (normalizeBox_fl round9 (denormalizeBbox_fl round9
        \<lparr>bbox0 = 1 / 3, bbox1 = 1 / 5, bbox2 = 1 / 2, bbox3 = 1\<rparr> 640 480) 640 480)
       = 333333333 / 1000000000
   \<and> \<bar>bbox0 (normalizeBox_fl round9 (denormalizeBbox_fl round9
        \<lparr>bbox0 = 1 / 3, bbox1 = 1 / 5, bbox2 = 1 / 2, bbox3 = 1\<rparr> 640 480) 640 480)
       - 1 / 3\<bar> \<le> 1 / 1000000
   \<and> \<bar>bbox2 (normalizeBox_fl round9 (denormalizeBbox_fl round9
        \<lparr>bbox0 = 1 / 3, bbox1 = 1 / 5, bbox2 = 1 / 2, bbox3 = 1\<rparr> 640 480) 640 480)
       - 1 / 2\<bar> \<le> 1 / 1000000"
proof -
  have v: "bbox0 (normalizeBox_fl round9 (denormalizeBbox_fl round9
        \<lparr>bbox0 = 1 / 3, bbox1 = 1 / 5, bbox2 = 1 / 2, bbox3 = 1\<rparr> 640 480) 640 480)
       = 333333333 / 1000000000"
    by (simp add: normalizeBox_fl_def denormalizeBbox_fl_def round9_third_roundtrip)
  have d: "denormalizeBbox \<lparr>bbox0 = 1 / 10, bbox1 = 1 / 5, bbox2 = 1 / 2, bbox3 = 1\<rparr> 640 480
       = \<lparr>box_x = 64, box_y = 96, box_width = 256, box_height = 384\<rparr>"
    by (simp add: denormalizeBbox_def)
  show ?thesis
    using normalize_denormalize_roundtrip
      [of 640 480 "\<lparr>bbox0 = 1 / 3, bbox1 = 1 / 5, bbox2 = 1 / 2, bbox3 = 1\<rparr>" "obj_at 0"
          0 "1 / 100000000" round9]
      round9_rounding v d
    by simp
qed

section \<open>Properties of the rounding to doubles\<close>

lemma round_half_even_of_int: "round_half_even (of_int n) = n"
  by (rule round_half_even_unique) simp_all


lemma round_half_even_ge:
  assumes "of_int n \<le> x"
  shows "n \<le> round_half_even x"
proof -
  have "n \<le> \<lfloor>x\<rfloor>" using assms by (simp add: le_floor_iff)
  moreover have "\<lfloor>x\<rfloor> \<le> round_half_even x" by (simp add: round_half_even_def Let_def)
  ultimately show ?thesis by linarith
qed

lemma round_half_even_le:
  assumes "x \<le> of_int n"
  shows "round_half_even x \<le> n"
proof (cases "x = of_int \<lfloor>x\<rfloor>")
  case True
  then have "round_half_even x = \<lfloor>x\<rfloor>" by (metis round_half_even_of_int)
  moreover have "\<lfloor>x\<rfloor> \<le> n" using assms by (simp add: floor_le_iff)
  ultimately show ?thesis by simp
next
  case False
  then have ne: "of_int \<lfloor>x\<rfloor> \<noteq> x" by (rule not_sym)
  have "of_int \<lfloor>x\<rfloor> < x" using of_int_floor_le ne by (rule le_neq_trans)
  then have "(of_int \<lfloor>x\<rfloor> :: rat) < of_int n" using assms by linarith
  then have "\<lfloor>x\<rfloor> < n" by (simp only: of_int_less_iff)
  moreover have "round_half_even x \<le> \<lfloor>x\<rfloor> + 1" by (simp add: round_half_even_def Let_def)
  ultimately show ?thesis by linarith
qed

lemma bitlen_powi_bounds:
  assumes "0 < (x::int)"
  shows "(2::rat) powi (bitlen x - 1) \<le> of_int x" "of_int x < (2::rat) powi (bitlen x)"
proof -
  have b: "1 \<le> bitlen x" using assms by (auto simp: bitlen_alt_def)
  have lo: "2 ^ nat (bitlen x - 1) \<le> x" and hi: "x < 2 ^ nat (bitlen x)"
    using bitlen_bounds[OF assms] by auto
  have "(2::rat) powi (bitlen x - 1) = 2 ^ nat (bitlen x - 1)"
    using b by (simp add: power_int_def)
  also have "\<dots> = of_int (2 ^ nat (bitlen x - 1))" by simp
  also have "\<dots> \<le> of_int x" using lo by (simp only: of_int_le_iff)
  finally show "(2::rat) powi (bitlen x - 1) \<le> of_int x" .
  have "(of_int x :: rat) < of_int (2 ^ nat (bitlen x))" using hi by (simp only: of_int_less_iff)
  also have "\<dots> = 2 ^ nat (bitlen x)" by simp
  also have "\<dots> = (2::rat) powi (bitlen x)" using b by (simp add: power_int_def)
  finally show "of_int x < (2::rat) powi (bitlen x)" .
qed

lemma ilog2_bounds:
  assumes "0 < r"
  shows "2 powi (ilog2 r) \<le> r" "r < 2 powi (ilog2 r + 1)"
proof -
  obtain p q where pq: "quotient_of r = (p, q)" by (cases "quotient_of r")
  have q: "0 < q" using quotient_of_denom_pos[OF pq] .
  have r: "r = of_int p / of_int q" using quotient_of_div[OF pq] .
  have p: "0 < p" using assms q unfolding r by (simp add: zero_less_divide_iff)
  define k where "k = bitlen p - bitlen q"
  have il: "ilog2 r = (if 2 powi k \<le> r then k else k - 1)"
    by (simp add: ilog2_def pq k_def Let_def)
  have qr: "(0::rat) < of_int q" using q by simp
  have up: "r < 2 powi (k + 1)"
  proof -
    have "of_int p < (2::rat) powi (bitlen p)" using bitlen_powi_bounds(2)[OF p] .
    also have "\<dots> = 2 powi (k + 1) * 2 powi (bitlen q - 1)"
      by (simp add: k_def power_int_add[symmetric])
    also have "\<dots> \<le> 2 powi (k + 1) * of_int q"
      using bitlen_powi_bounds(1)[OF q] by (intro mult_left_mono) simp_all
    finally show ?thesis unfolding r using qr by (simp add: pos_divide_less_eq)
  qed
  have lo: "2 powi (k - 1) < r"
  proof -
    have "(2::rat) powi (k - 1) * of_int q < 2 powi (k - 1) * 2 powi (bitlen q)"
      using bitlen_powi_bounds(2)[OF q] by (intro mult_strict_left_mono) simp_all
    also have "\<dots> = 2 powi (bitlen p - 1)" by (simp add: k_def power_int_add[symmetric])
    also have "\<dots> \<le> of_int p" using bitlen_powi_bounds(1)[OF p] .
    finally show ?thesis unfolding r using qr by (simp add: pos_less_divide_eq)
  qed
  show "2 powi (ilog2 r) \<le> r" unfolding il using lo by simp
  show "r < 2 powi (ilog2 r + 1)" unfolding il using up by simp
qed

lemma ilog2_unique:
  assumes "2 powi e \<le> r" "r < 2 powi (e + 1)"
  shows "ilog2 r = e"
proof -
  have pos: "0 < r" using assms(1) by (rule less_le_trans[rotated]) simp
  note b = ilog2_bounds[OF pos]
  have l1: "(2::rat) powi e < 2 powi (ilog2 r + 1)" using assms(1) b(2) by linarith
  have 1: "e < ilog2 r + 1"
  proof (rule ccontr)
    assume "\<not> e < ilog2 r + 1"
    then have "(2::rat) powi (ilog2 r + 1) \<le> 2 powi e"
      by (intro power_int_increasing) simp_all
    then show False using l1 by linarith
  qed
  have l2: "(2::rat) powi (ilog2 r) < 2 powi (e + 1)" using assms(2) b(1) by linarith
  have 2: "ilog2 r < e + 1"
  proof (rule ccontr)
    assume "\<not> ilog2 r < e + 1"
    then have "(2::rat) powi (e + 1) \<le> 2 powi (ilog2 r)"
      by (intro power_int_increasing) simp_all
    then show False using l2 by linarith
  qed
  show ?thesis using 1 2 by linarith
qed

lemma powi_less_imp_less:
  assumes "(2::rat) powi a < 2 powi b"
  shows "a < b"
proof (rule ccontr)
  assume "\<not> a < b"
  then have "(2::rat) powi b \<le> 2 powi a" by (intro power_int_increasing) simp_all
  then show False using assms by linarith
qed

lemma rnd64_unfold:
  assumes "r \<noteq> 0"
  shows "rnd64 r = of_int (round_half_even (r / 2 powi (max (ilog2 \<bar>r\<bar>) (- 1022) - 52)))
                     * 2 powi (max (ilog2 \<bar>r\<bar>) (- 1022) - 52)"
  using assms by (simp add: rnd64_def Let_def)

lemma rnd64_half_ulp:
  assumes "r \<noteq> 0"
  shows "\<bar>rnd64 r - r\<bar> \<le> 2 powi (max (ilog2 \<bar>r\<bar>) (- 1022) - 52) / 2"
proof -
  define ulp :: rat where "ulp = 2 powi (max (ilog2 \<bar>r\<bar>) (- 1022) - 52)"
  have u: "0 < ulp" by (simp add: ulp_def zero_less_power_int)
  have eq: "rnd64 r - r = (of_int (round_half_even (r / ulp)) - r / ulp) * ulp"
    using u by (simp add: rnd64_unfold[OF assms] ulp_def[symmetric] left_diff_distrib)
  have "\<bar>rnd64 r - r\<bar> = \<bar>of_int (round_half_even (r / ulp)) - r / ulp\<bar> * ulp"
    unfolding eq using u by (simp add: abs_mult)
  also have "\<dots> \<le> (1 / 2) * ulp"
    using round_half_even_error[of "r / ulp"] u by (intro mult_right_mono) simp_all
  finally show ?thesis by (simp add: ulp_def)
qed

lemma rnd64_rounding: "rounding_within (1 / 2 ^ 53) (1 / 2 ^ 1075) rnd64"
proof -
  have "\<bar>rnd64 r - r\<bar> \<le> (1 / 2 ^ 53) * \<bar>r\<bar> + 1 / 2 ^ 1075" for r
  proof (cases "r = 0")
    case True
    then show ?thesis by (simp add: rnd64_def)
  next
    case False
    note h = rnd64_half_ulp[OF False]
    have pos: "0 < \<bar>r\<bar>" using False by simp
    show ?thesis
    proof (cases "- 1022 \<le> ilog2 \<bar>r\<bar>")
      case True
      then have m: "max (ilog2 \<bar>r\<bar>) (- 1022) = ilog2 \<bar>r\<bar>" by simp
      have "(2::rat) powi (ilog2 \<bar>r\<bar> - 52) / 2 = 2 powi (ilog2 \<bar>r\<bar>) * (1 / 2 ^ 53)"
        by (simp add: power_int_diff)
      also have "\<dots> \<le> \<bar>r\<bar> * (1 / 2 ^ 53)"
        using ilog2_bounds(1)[OF pos] by (intro mult_right_mono) simp_all
      finally have "(2::rat) powi (ilog2 \<bar>r\<bar> - 52) / 2 \<le> (1 / 2 ^ 53) * \<bar>r\<bar>"
        by (simp add: mult.commute)
      then have "\<bar>rnd64 r - r\<bar> \<le> (1 / 2 ^ 53) * \<bar>r\<bar>"
        using h unfolding m by (rule order_trans[rotated])
      then show ?thesis by (rule order_trans) simp
    next
      case False
      then have m: "max (ilog2 \<bar>r\<bar>) (- 1022) = - 1022" by simp
      have "(2::rat) powi (- 1022 - 52) / 2 = 1 / 2 ^ 1075"
        by (simp add: power_int_minus_divide)
      then have "\<bar>rnd64 r - r\<bar> \<le> 1 / 2 ^ 1075" using h unfolding m by simp
      then show ?thesis by (rule order_trans) simp
    qed
  qed
  then show ?thesis unfolding rounding_within_def by blast
qed

lemma rnd64_eval:
  assumes "2 powi e \<le> \<bar>r\<bar>" "\<bar>r\<bar> < 2 powi (e + 1)" "- 1022 \<le> e"
    and "round_half_even (r / 2 powi (e - 52)) = m"
  shows "rnd64 r = of_int m * 2 powi (e - 52)"
proof -
  have "0 < \<bar>r\<bar>" using assms(1) by (rule less_le_trans[rotated]) (simp add: zero_less_power_int)
  then have nz: "r \<noteq> 0" by simp
  have il: "ilog2 \<bar>r\<bar> = e" using assms(1,2) by (rule ilog2_unique)
  show ?thesis unfolding rnd64_unfold[OF nz] il using assms(3,4) by simp
qed

lemma rnd64_exact:
  assumes r: "r = of_int m * 2 powi k" and m: "\<bar>m\<bar> < 2 ^ 53" and k: "- 1074 \<le> k"
  shows "rnd64 r = r"
proof (cases "r = 0")
  case True
  then show ?thesis by (simp add: rnd64_def)
next
  case False
  define e where "e = max (ilog2 \<bar>r\<bar>) (- 1022)"
  have pos: "0 < \<bar>r\<bar>" using False by simp
  have "\<bar>r\<bar> = of_int \<bar>m\<bar> * 2 powi k" unfolding r by (simp add: abs_mult)
  also have "\<dots> < of_int (2 ^ 53) * 2 powi k"
    using m by (intro mult_strict_right_mono) (simp_all only: of_int_less_iff zero_less_power_int zero_less_numeral)
  also have "\<dots> = 2 powi (k + 53)" by (simp add: power_int_add)
  finally have "\<bar>r\<bar> < 2 powi (k + 53)" .
  then have "(2::rat) powi (ilog2 \<bar>r\<bar>) < 2 powi (k + 53)"
    using ilog2_bounds(1)[OF pos] by linarith
  then have "ilog2 \<bar>r\<bar> < k + 53" by (rule powi_less_imp_less)
  then have e: "e - 52 \<le> k" using k by (simp add: e_def)
  define j where "j = nat (k - (e - 52))"
  have kj: "k = (e - 52) + int j" using e by (simp add: j_def)
  have "r / 2 powi (e - 52) = of_int m * 2 ^ j"
    unfolding r by (subst kj) (simp add: power_int_add power_int_of_nat)
  also have "\<dots> = of_int (m * 2 ^ j)" by simp
  finally have q: "r / 2 powi (e - 52) = of_int (m * 2 ^ j)" .
  have "rnd64 r = of_int (m * 2 ^ j) * 2 powi (e - 52)"
    unfolding rnd64_unfold[OF False] e_def[symmetric] q round_half_even_of_int ..
  also have "\<dots> = r" unfolding q[symmetric] by simp
  finally show ?thesis .
qed

lemma rnd64_overflow_pos:
  assumes "2 ^ 1024 \<le> r"
  shows "2 ^ 1024 \<le> rnd64 r"
proof -
  have rpos: "0 < r" using assms by (rule less_le_trans[rotated]) simp
  then have ar: "\<bar>r\<bar> = r" and nz: "r \<noteq> 0" by simp_all
  define e where "e = ilog2 r"
  have "(2::rat) powi 1024 < 2 powi (e + 1)"
    using assms ilog2_bounds(2)[OF rpos] by (simp add: e_def)
  then have "1024 < e + 1" by (rule powi_less_imp_less)
  then have e: "1024 \<le> e" by simp
  then have mx: "max e (- 1022) = e" by simp
  define ulp :: rat where "ulp = 2 powi (e - 52)"
  have u: "0 < ulp" by (simp add: ulp_def zero_less_power_int)
  have "(2::rat) powi e = of_int (2 ^ 52) * ulp" by (simp add: ulp_def power_int_diff)
  moreover have "2 powi e \<le> r" using ilog2_bounds(1)[OF rpos] by (simp add: e_def)
  ultimately have "of_int (2 ^ 52) \<le> r / ulp" using u by (simp add: pos_le_divide_eq)
  then have "2 ^ 52 \<le> round_half_even (r / ulp)" by (rule round_half_even_ge)
  then have "(of_int (2 ^ 52) :: rat) \<le> of_int (round_half_even (r / ulp))"
    by (simp only: of_int_le_iff)
  then have "of_int (2 ^ 52) * ulp \<le> of_int (round_half_even (r / ulp)) * ulp"
    using u by (intro mult_right_mono) simp_all
  moreover have "rnd64 r = of_int (round_half_even (r / ulp)) * ulp"
    unfolding rnd64_unfold[OF nz] ar e_def[symmetric] mx ulp_def ..
  moreover have "(2::rat) ^ 1024 \<le> 2 powi e"
    using power_int_increasing[of 1024 e "2::rat"] e by simp
  moreover have "(2::rat) powi e = of_int (2 ^ 52) * ulp" by (simp add: ulp_def power_int_diff)
  ultimately show ?thesis by linarith
qed

lemma rnd64_overflow_neg:
  assumes "r \<le> - (2 ^ 1024)"
  shows "rnd64 r \<le> - (2 ^ 1024)"
proof -
  have rneg: "r < 0" using assms by (rule le_less_trans) simp
  then have ar: "\<bar>r\<bar> = - r" and nz: "r \<noteq> 0" and apos: "0 < \<bar>r\<bar>" by simp_all
  define e where "e = ilog2 \<bar>r\<bar>"
  have big: "2 ^ 1024 \<le> \<bar>r\<bar>" using assms ar by linarith
  have "(2::rat) powi 1024 < 2 powi (e + 1)"
    using big ilog2_bounds(2)[OF apos] by (simp add: e_def)
  then have "1024 < e + 1" by (rule powi_less_imp_less)
  then have e: "1024 \<le> e" by simp
  then have mx: "max e (- 1022) = e" by simp
  define ulp :: rat where "ulp = 2 powi (e - 52)"
  have u: "0 < ulp" by (simp add: ulp_def zero_less_power_int)
  have pe: "(2::rat) powi e = of_int (2 ^ 52) * ulp" by (simp add: ulp_def power_int_diff)
  have "2 powi e \<le> - r" using ilog2_bounds(1)[OF apos] ar by (simp add: e_def)
  then have "r \<le> - (of_int (2 ^ 52) * ulp)" using pe by linarith
  then have "r / ulp \<le> of_int (- (2 ^ 52))" using u by (simp add: pos_divide_le_eq)
  then have "round_half_even (r / ulp) \<le> - (2 ^ 52)" by (rule round_half_even_le)
  then have "(of_int (round_half_even (r / ulp)) :: rat) \<le> of_int (- (2 ^ 52))"
    by (simp only: of_int_le_iff)
  then have "of_int (round_half_even (r / ulp)) * ulp \<le> of_int (- (2 ^ 52)) * ulp"
    using u by (intro mult_right_mono) simp_all
  moreover have "rnd64 r = of_int (round_half_even (r / ulp)) * ulp"
    unfolding rnd64_unfold[OF nz] e_def[symmetric] mx ulp_def ..
  moreover have "(2::rat) ^ 1024 \<le> 2 powi e"
    using power_int_increasing[of 1024 e "2::rat"] e by simp
  moreover have "of_int (- (2 ^ 52)) * ulp = - ((2::rat) powi e)" using pe by simp
  ultimately show ?thesis by linarith
qed





section \<open>Translation in double arithmetic\<close>






























section \<open>Properties of the interaction handlers\<close>

text \<open>
  C4 as stated (a finalized draw gesture commits exactly when width and height exceed 5)
  fails: in text-prompt mode on an image with no result set, a 100 by 50 box passes the
  threshold and yet nothing is committed.
\<close>

theorem handleMouseUp_valid_box_not_committed:
  "drawing (drawnCanvas (emptyApp TEXT_PROMPT) box100x50)
   \<and> currentBox (drawnCanvas (emptyApp TEXT_PROMPT) box100x50) = Some box100x50
   \<and> editMode (drawnCanvas (emptyApp TEXT_PROMPT) box100x50) = DRAW
   \<and> 5 < box_width box100x50 \<and> 5 < box_height box100x50
   \<and> app (handleMouseUp (drawnCanvas (emptyApp TEXT_PROMPT) box100x50)) =
       app (drawnCanvas (emptyApp TEXT_PROMPT) box100x50)"
  by (simp add: drawnCanvas_def emptyApp_def box100x50_def handleMouseUp_def
      currentResults_def)

text \<open>
  C4, amended: for a draw gesture finalized by pointer-up (drawing, with a current box, a
  loaded image and mode Draw), the box is committed exactly when its width and height
  both exceed 5 and, besides, the detection mode is image-prompt (it is appended to the
  prompt list with class 0) or the current image has a result set (it is appended there
  with class 0, no mask and confidence 1). In every other case the provider state is
  unchanged. The draw state is reset in all cases.
\<close>

theorem handleMouseUp_commit_condition:
  assumes "drawing s" "currentBox s = Some cb" "loadedImage s = Some (imgW, imgH)"
    "editMode s = DRAW"
  shows "(if 5 < box_width cb \<and> 5 < box_height cb
          then (if detectionMode (app s) = IMAGE_PROMPT
                then app (handleMouseUp s) = (app s)\<lparr>imagePrompts :=
                       \<lparr>bboxes = bboxes (imagePrompts (app s)) @ [normalizeBox cb imgW imgH],
                        cls = cls (imagePrompts (app s)) @ [0]\<rparr>\<rparr>
                else (case currentResults (app s) of
                        None \<Rightarrow> app (handleMouseUp s) = app s
                      | Some r \<Rightarrow>
                          currentResults (app (handleMouseUp s)) =
                            Some (r\<lparr>objects := objects r @
                              [\<lparr>class_id = 0, bbox = normalizeBox cb imgW imgH,
                                mask_pts = None, confidence = 1\<rparr>]\<rparr>)
                          \<and> imagePrompts (app (handleMouseUp s)) = imagePrompts (app s)))
          else app (handleMouseUp s) = app s)
         \<and> \<not> drawing (handleMouseUp s) \<and> currentBox (handleMouseUp s) = None"
  using assms
  by (auto simp: handleMouseUp_def Let_def updateImagePrompts_def addBboxToResults_def
      currentResults_def split: option.splits)

theorem handleMouseUp_commit_condition_witness:
  "drawing (drawnCanvas store3 box100x50)
   \<and> currentBox (drawnCanvas store3 box100x50) = Some box100x50
   \<and> loadedImage (drawnCanvas store3 box100x50) = Some (200, 100)
   \<and> editMode (drawnCanvas store3 box100x50) = DRAW
   \<and> map_option objects (currentResults (app (handleMouseUp (drawnCanvas store3 box100x50)))) =
       Some [obj_at 0, obj_at (1 / 10), obj_at (2 / 10),
             \<lparr>class_id = 0, bbox = \<lparr>bbox0 = 0, bbox1 = 0, bbox2 = 1 / 2, bbox3 = 1 / 2\<rparr>,
              mask_pts = None, confidence = 1\<rparr>]
   \<and> app (handleMouseUp (drawnCanvas store3 box3x50)) = store3
   \<and> imagePrompts (app (handleMouseUp (drawnCanvas (emptyApp IMAGE_PROMPT) box100x50))) =
       \<lparr>bboxes = [\<lparr>bbox0 = 0, bbox1 = 0, bbox2 = 1 / 2, bbox3 = 1 / 2\<rparr>], cls = [0]\<rparr>"
  using handleMouseUp_commit_condition
      [of "drawnCanvas store3 box100x50" box100x50 200 100]
    handleMouseUp_commit_condition
      [of "drawnCanvas store3 box3x50" box3x50 200 100]
    handleMouseUp_commit_condition
      [of "drawnCanvas (emptyApp IMAGE_PROMPT) box100x50" box100x50 200 100]
  by (simp add: drawnCanvas_def store3_def emptyApp_def box100x50_def box3x50_def
      currentResults_def normalizeBox_def)

lemma selection_visible_clearHiddenSelection: "selection_visible (clearHiddenSelection s)"
  by (simp add: selection_visible_def clearHiddenSelection_def split: option.splits)

lemma selection_visible_step: "selection_visible (step e s)"
  by (simp add: step_def selection_visible_clearHiddenSelection)

lemma selection_visible_run: "selection_visible s \<Longrightarrow> selection_visible (run es s)"
  unfolding run_def
  by (induction es arbitrary: s) (simp_all add: selection_visible_step)

lemma currentHiddenObjects_toggle:
  "currentImage a \<noteq> None \<Longrightarrow>
   currentHiddenObjects (toggleObjectVisibility i a) =
     (if i \<in> set (currentHiddenObjects a)
      then filter (\<lambda>j. j \<noteq> i) (currentHiddenObjects a)
      else currentHiddenObjects a @ [i])"
  by (cases "currentImage a")
     (simp_all add: toggleObjectVisibility_def currentHiddenObjects_def Let_def
        split: option.splits)

lemma toggle_selected_clears_selection:
  assumes "selectedObjectIndex s = Some i" "currentImage (app s) \<noteq> None"
    "i \<notin> set (currentHiddenObjects (app s))"
  shows "selectedObjectIndex (step (ToggleVisibility i) s) = None
       \<and> i \<in> set (currentHiddenObjects (app (step (ToggleVisibility i) s)))"
proof -
  let ?s1 = "handle (ToggleVisibility i) s"
  have h: "currentHiddenObjects (app ?s1) = currentHiddenObjects (app s) @ [i]"
    using assms(2,3) by (simp add: currentHiddenObjects_toggle)
  have sel: "selectedObjectIndex ?s1 = Some i" using assms(1) by simp
  have "step (ToggleVisibility i) s = ?s1\<lparr>selectedObjectIndex := None\<rparr>"
    unfolding step_def clearHiddenSelection_def using h sel by simp
  then show ?thesis using h by simp
qed

lemma hidden_after_handler_clears_selection:
  assumes "selectedObjectIndex (handle e s) = Some i"
    "i \<in> set (currentHiddenObjects (app (handle e s)))"
  shows "selectedObjectIndex (step e s) = None"
  using assms by (simp add: step_def clearHiddenSelection_def)

text \<open>
  C5 (a hidden object is never the selected one): a step is an event handler followed
  by the selection effect. After every step, from any state, the selected index is not
  in the hidden list of the current image; hence this holds in every state reached from
  the component's initial state, and it is kept along any event sequence. Whenever a
  handler leaves the selected index in the hidden list the step ends with no selection;
  in particular toggling the visibility of the selected, visible object hides it and
  clears the selection.
\<close>

theorem hidden_object_never_selected:
  "selection_visible (step e s)
   \<and> selection_visible (run es (initialCanvas a img))
   \<and> (selection_visible s \<longrightarrow> selection_visible (run es s))
   \<and> (selectedObjectIndex (handle e s) = Some i
        \<and> i \<in> set (currentHiddenObjects (app (handle e s)))
       \<longrightarrow> selectedObjectIndex (step e s) = None)
   \<and> (selectedObjectIndex s = Some i \<and> currentImage (app s) \<noteq> None
        \<and> i \<notin> set (currentHiddenObjects (app s))
       \<longrightarrow> selectedObjectIndex (step (ToggleVisibility i) s) = None
           \<and> i \<in> set (currentHiddenObjects (app (step (ToggleVisibility i) s))))"
proof -
  have "selection_visible (initialCanvas a img)"
    by (simp add: selection_visible_def initialCanvas_def)
  then have "selection_visible (run es (initialCanvas a img))"
    by (rule selection_visible_run)
  then show ?thesis
    using selection_visible_step [of e s] selection_visible_run [of s es]
      hidden_after_handler_clears_selection [of e s i]
      toggle_selected_clears_selection [of s i]
    by blast
qed

theorem hidden_object_never_selected_witness:
  "selectedObjectIndex (step (BoxSelect 1) (initialCanvas store3 (Some (200, 100)))) = Some 1
   \<and> currentImage store3 \<noteq> None
   \<and> 1 \<notin> set (currentHiddenObjects store3)
   \<and> selection_visible (step (BoxSelect 1) (initialCanvas store3 (Some (200, 100))))
   \<and> selectedObjectIndex
        (run [BoxSelect 1, ToggleVisibility 1] (initialCanvas store3 (Some (200, 100)))) = None
   \<and> currentHiddenObjects
        (app (run [BoxSelect 1, ToggleVisibility 1] (initialCanvas store3 (Some (200, 100)))))
       = [2, 1]
   \<and> selectedObjectIndex (step (BoxSelect 2) (initialCanvas store3 (Some (200, 100)))) = None"
  using hidden_object_never_selected
      [of "BoxSelect 1" "initialCanvas store3 (Some (200, 100))" "[]" store3 None 1]
    hidden_object_never_selected
      [of "ToggleVisibility 1" "step (BoxSelect 1) (initialCanvas store3 (Some (200, 100)))"
          "[]" store3 None 1]
    hidden_object_never_selected
      [of "BoxSelect 2" "initialCanvas store3 (Some (200, 100))" "[]" store3 None 2]
  by (simp add: run_def step_def clearHiddenSelection_def handleBoxSelect_def
      initialCanvas_def store3_def currentHiddenObjects_def toggleObjectVisibility_def
      selection_visible_def Let_def)

text \<open>
  C6 (switching the mode away from Draw discards the half-drawn box for good): the mode
  switch only sets the mode, and \<open>drawing\<close> and \<open>currentBox\<close> survive it; only the Escape
  key resets them. In draw mode a box is started at (10, 10) and dragged to (110, 60),
  the mode is switched to Select and the pointer released: nothing is committed. Then the
  mode is switched back to Draw: the pointer moving to (150, 80) stretches the old box,
  and the next pointer-up, after a press on a shape, commits it.
\<close>

theorem mode_switch_keeps_half_drawn_box:
  "imagePrompts (app (run
      [SetEditMode DRAW,
       MouseDown True (Some (10, 10)), MouseMove (Some (110, 60)) (100, 50),
       SetEditMode SELECT, MouseUp]
      (initialCanvas (emptyApp IMAGE_PROMPT) (Some (200, 100)))))
     = \<lparr>bboxes = [], cls = []\<rparr>
   \<and> currentBox (run
      [SetEditMode DRAW,
       MouseDown True (Some (10, 10)), MouseMove (Some (110, 60)) (100, 50),
       SetEditMode SELECT, MouseUp]
      (initialCanvas (emptyApp IMAGE_PROMPT) (Some (200, 100))))
     = Some \<lparr>box_x = 10, box_y = 10, box_width = 100, box_height = 50\<rparr>
   \<and> imagePrompts (app (run
      [SetEditMode DRAW,
       MouseDown True (Some (10, 10)), MouseMove (Some (110, 60)) (100, 50),
       SetEditMode SELECT, MouseUp,
       SetEditMode DRAW, MouseMove (Some (150, 80)) (40, 20),
       MouseDown False (Some (150, 80)), MouseUp]
      (initialCanvas (emptyApp IMAGE_PROMPT) (Some (200, 100)))))
     = \<lparr>bboxes = [\<lparr>bbox0 = 1 / 20, bbox1 = 1 / 10, bbox2 = 3 / 4, bbox3 = 4 / 5\<rparr>],
        cls = [0]\<rparr>"
  by (simp add: run_def step_def clearHiddenSelection_def initialCanvas_def emptyApp_def
      handleMouseDown_def handleMouseMove_def handleMouseUp_def Let_def
      updateImagePrompts_def normalizeBox_def)

lemma pointer_events_outside_draw_mode:
  assumes "editMode s \<noteq> DRAW"
  shows "app (handleMouseUp s) = app s \<and> app (handleMouseMove p mv s) = app s
       \<and> currentBox (handleMouseUp s) = currentBox s
       \<and> currentBox (handleMouseMove p mv s) = currentBox s
       \<and> drawing (handleMouseUp s) = drawing s"
  using assms
  by (auto simp: handleMouseUp_def handleMouseMove_def split: option.splits prod.splits)

lemma mode_switch_keeps_draw_state:
  "drawing (handle (SetEditMode m) s) = drawing s
   \<and> currentBox (handle (SetEditMode m) s) = currentBox s
   \<and> startPoint (handle (SetEditMode m) s) = startPoint s"
  by simp

lemma escape_resets_draw_state:
  "\<not> drawing (handleKeyDown Escape s) \<and> currentBox (handleKeyDown Escape s) = None
   \<and> app (handleKeyDown Escape s) = app s"
  by (simp add: handleKeyDown_def)

text \<open>
  C9 as stated (committing a valid drawn box on an image without a result set creates
  the store and appends the object) fails: in prompt-free mode on an image with no result
  set, finalizing a 100 by 50 box leaves the image without a result set, and so does
  \<open>addBboxToResults\<close> called directly.
\<close>

theorem drawn_box_creates_no_store:
  "currentResults (app (drawnCanvas (emptyApp PROMPT_FREE) box100x50)) = None
   \<and> 5 < box_width box100x50 \<and> 5 < box_height box100x50
   \<and> currentResults (app (handleMouseUp (drawnCanvas (emptyApp PROMPT_FREE) box100x50))) = None
   \<and> currentResults (addBboxToResults \<lparr>bbox0 = 0, bbox1 = 0, bbox2 = 1 / 2, bbox3 = 1 / 2\<rparr>
        0 None (emptyApp PROMPT_FREE)) = None"
  by (simp add: drawnCanvas_def emptyApp_def box100x50_def handleMouseUp_def
      currentResults_def addBboxToResults_def)

lemma app_clearHiddenSelection: "app (clearHiddenSelection s) = app s"
  by (simp add: clearHiddenSelection_def split: option.splits)

lemma store_ops_keep_absent:
  assumes "currentResults a = None"
  shows "addBboxToResults b c m a = a"
    and "updateBboxInResults i b m a = a"
    and "updateObjectClass i c a = a"
    and "currentResults (removeBboxFromResults i a) = None"
    and "currentResults (toggleObjectVisibility i a) = None"
    and "currentResults (updateImagePrompts bs cs a) = None"
  using assms
  by (auto simp: addBboxToResults_def updateBboxInResults_def updateObjectClass_def
      removeBboxFromResults_def toggleObjectVisibility_def updateImagePrompts_def
      currentResults_def Let_def split: option.splits)

lemma handler_keeps_absent:
  assumes "currentResults (app s) = None" "\<forall>r. e \<noteq> DetectionResult r"
  shows "currentResults (app (handle e s)) = None"
proof (cases e)
  case (MouseDown onStage p)
  then show ?thesis using assms(1)
    by (simp add: handleMouseDown_def Let_def split: option.splits prod.splits)
next
  case (MouseMove p mv)
  then show ?thesis using assms(1)
    by (simp add: handleMouseMove_def Let_def split: option.splits prod.splits)
next
  case MouseUp
  then show ?thesis using assms(1)
    by (simp add: handleMouseUp_def Let_def store_ops_keep_absent
        split: option.splits prod.splits)
next
  case (BoxSelect i)
  then show ?thesis using assms(1) by (simp add: handleBoxSelect_def)
next
  case (KeyDown k)
  then show ?thesis using assms(1) by (simp add: handleKeyDown_def)
next
  case DeleteSelected
  then show ?thesis using assms(1)
    by (simp add: handleDeleteSelected_def split: option.splits)
next
  case (GroupDragEnd i dx dy)
  then show ?thesis using assms(1) by (simp add: handleGroupDragEnd_def split: option.splits)
next
  case (TransformEnd i sx sy nx ny)
  then show ?thesis using assms(1) by (simp add: handleTransformEnd_def split: option.splits)
next
  case (ClassChange c)
  then show ?thesis using assms(1) by (simp add: handleClassChange_def split: option.splits)
next
  case (SetEditMode m)
  then show ?thesis using assms(1) by simp
next
  case (SetDetectionMode m)
  then show ?thesis using assms(1) by (simp add: currentResults_def split: option.splits)
next
  case (ToggleVisibility i)
  then show ?thesis using assms(1) by (simp add: store_ops_keep_absent)
next
  case (DetectionResult r)
  then show ?thesis using assms(2) by simp
qed

lemma step_keeps_absent:
  assumes "currentResults (app s) = None" "\<forall>r. e \<noteq> DetectionResult r"
  shows "currentResults (app (step e s)) = None"
  using handler_keeps_absent[OF assms] by (simp add: step_def app_clearHiddenSelection)

text \<open>
  C9, amended: the result set of the current image is created when detection results
  arrive (\<open>addDetectionResult\<close>), and only then: no other event gives a result set to
  an image that has none. Committing a valid drawn box appends the object (class 0, no
  mask, confidence 1) to the result set if the image has one and the mode is not
  image-prompt; on an image without a result set \<open>addBboxToResults\<close> returns the state
  unchanged, and finalizing a drawn box leaves the results of every image as they were.
\<close>

theorem store_created_by_detection_only:
  "(currentImage a = Some cid \<longrightarrow> currentResults (addDetectionResult cid r a) = Some r)
   \<and> (currentResults a = None \<longrightarrow> addBboxToResults b c m a = a)
   \<and> ((\<forall>r'. e \<noteq> DetectionResult r') \<and> currentResults (app s) = None \<longrightarrow>
         currentResults (app (step e s)) = None)
   \<and> (drawing s \<and> currentBox s = Some cb \<and> loadedImage s = Some (imgW, imgH)
        \<and> editMode s = DRAW \<and> 5 < box_width cb \<and> 5 < box_height cb \<longrightarrow>
       (case currentResults (app s) of
          None \<Rightarrow> detectionResults (app (handleMouseUp s)) = detectionResults (app s)
                  \<and> currentResults (app (handleMouseUp s)) = None
        | Some r0 \<Rightarrow>
            currentResults (app (handleMouseUp s)) =
              (if detectionMode (app s) = IMAGE_PROMPT then Some r0
               else Some (r0\<lparr>objects := objects r0 @
                      [\<lparr>class_id = 0, bbox = normalizeBox cb imgW imgH,
                        mask_pts = None, confidence = 1\<rparr>]\<rparr>))))"
proof -
  have created: "currentImage a = Some cid \<longrightarrow>
      currentResults (addDetectionResult cid r a) = Some r"
    by (simp add: addDetectionResult_def currentResults_def)
  have absent: "currentResults a = None \<longrightarrow> addBboxToResults b c m a = a"
    by (simp add: store_ops_keep_absent)
  have others: "(\<forall>r'. e \<noteq> DetectionResult r') \<and> currentResults (app s) = None \<longrightarrow>
         currentResults (app (step e s)) = None"
    using step_keeps_absent [of s e] by blast
  have drawn: "drawing s \<and> currentBox s = Some cb \<and> loadedImage s = Some (imgW, imgH)
        \<and> editMode s = DRAW \<and> 5 < box_width cb \<and> 5 < box_height cb \<longrightarrow>
       (case currentResults (app s) of
          None \<Rightarrow> detectionResults (app (handleMouseUp s)) = detectionResults (app s)
                  \<and> currentResults (app (handleMouseUp s)) = None
        | Some r0 \<Rightarrow>
            currentResults (app (handleMouseUp s)) =
              (if detectionMode (app s) = IMAGE_PROMPT then Some r0
               else Some (r0\<lparr>objects := objects r0 @
                      [\<lparr>class_id = 0, bbox = normalizeBox cb imgW imgH,
                        mask_pts = None, confidence = 1\<rparr>]\<rparr>)))"
    by (auto simp: handleMouseUp_def Let_def updateImagePrompts_def addBboxToResults_def
        currentResults_def split: option.splits)
  show ?thesis using created absent others drawn by blast
qed

theorem store_created_by_detection_only_witness:
  "currentImage (emptyApp PROMPT_FREE) = Some ''img''
   \<and> currentResults (emptyApp PROMPT_FREE) = None
   \<and> currentResults (addDetectionResult ''img'' \<lparr>classes = [], objects = []\<rparr>
        (emptyApp PROMPT_FREE)) = Some \<lparr>classes = [], objects = []\<rparr>
   \<and> drawing (drawnCanvas (emptyApp PROMPT_FREE) box100x50)
   \<and> currentBox (drawnCanvas (emptyApp PROMPT_FREE) box100x50) = Some box100x50
   \<and> loadedImage (drawnCanvas (emptyApp PROMPT_FREE) box100x50) = Some (200, 100)
   \<and> editMode (drawnCanvas (emptyApp PROMPT_FREE) box100x50) = DRAW
   \<and> 5 < box_width box100x50 \<and> 5 < box_height box100x50
   \<and> app (handleMouseUp (drawnCanvas (emptyApp PROMPT_FREE) box100x50)) = emptyApp PROMPT_FREE
   \<and> currentResults (app (step MouseUp (drawnCanvas (emptyApp PROMPT_FREE) box100x50))) = None
   \<and> map_option objects (currentResults (app (handleMouseUp
        (drawnCanvas (addDetectionResult ''img'' \<lparr>classes = [], objects = []\<rparr>
           (emptyApp PROMPT_FREE)) box100x50)))) =
       Some [\<lparr>class_id = 0, bbox = \<lparr>bbox0 = 0, bbox1 = 0, bbox2 = 1 / 2, bbox3 = 1 / 2\<rparr>,
              mask_pts = None, confidence = 1\<rparr>]"
  using store_created_by_detection_only
      [of "emptyApp PROMPT_FREE" "''img''" "\<lparr>classes = [], objects = []\<rparr>"
          "\<lparr>bbox0 = 0, bbox1 = 0, bbox2 = 1 / 2, bbox3 = 1 / 2\<rparr>" 0 None MouseUp
          "drawnCanvas (emptyApp PROMPT_FREE) box100x50" box100x50 200 100]
    store_created_by_detection_only
      [of "emptyApp PROMPT_FREE" "''img''" "\<lparr>classes = [], objects = []\<rparr>"
          "\<lparr>bbox0 = 0, bbox1 = 0, bbox2 = 1 / 2, bbox3 = 1 / 2\<rparr>" 0 None MouseUp
          "drawnCanvas (addDetectionResult ''img'' \<lparr>classes = [], objects = []\<rparr>
             (emptyApp PROMPT_FREE)) box100x50" box100x50 200 100]
  by (simp add: drawnCanvas_def emptyApp_def box100x50_def handleMouseUp_def step_def
      clearHiddenSelection_def currentResults_def addDetectionResult_def addBboxToResults_def
      normalizeBox_def Let_def)

section \<open>Properties of the export\<close>

lemma round64_overflow:
  "2 ^ 1024 \<le> r \<Longrightarrow> round64 r = PosInf"
  "r \<le> - (2 ^ 1024) \<Longrightarrow> round64 r = NegInf"
proof -
  show "2 ^ 1024 \<le> r \<Longrightarrow> round64 r = PosInf"
    using rnd64_overflow_pos[of r] by (simp add: round64_def)
  assume "r \<le> - (2 ^ 1024)"
  then have n: "rnd64 r \<le> - (2 ^ 1024)" by (rule rnd64_overflow_neg)
  have "\<not> (2::rat) ^ 1024 \<le> rnd64 r"
  proof
    assume "(2::rat) ^ 1024 \<le> rnd64 r"
    then have "(2::rat) ^ 1024 \<le> - (2 ^ 1024)" using n by (rule order_trans)
    then show False by simp
  qed
  then show "round64 r = NegInf" using n by (simp add: round64_def)
qed

lemma round64_exact:
  assumes "r = of_int m * 2 powi k" "\<bar>m\<bar> < 2 ^ 53" "- 1074 \<le> k" "\<bar>r\<bar> < 2 ^ 1024"
  shows "round64 r = Fin r"
proof -
  have "rnd64 r = r" using assms(1-3) by (rule rnd64_exact)
  moreover have "\<not> 2 ^ 1024 \<le> r" "\<not> r \<le> - (2 ^ 1024)" using assms(4) by linarith+
  ultimately show ?thesis by (simp add: round64_def)
qed

lemma round64_int:
  assumes "\<bar>n\<bar> < 2 ^ 53"
  shows "round64 (of_int n) = Fin (of_int n)"
proof (rule round64_exact[where m = n and k = 0])
  show "(of_int n :: rat) = of_int n * 2 powi 0" by simp
  show "\<bar>n\<bar> < 2 ^ 53" by (rule assms)
  show "- 1074 \<le> (0::int)" by simp
  have "\<bar>of_int n :: rat\<bar> = of_int \<bar>n\<bar>" by simp
  also have "\<dots> < of_int (2 ^ 53)" using assms by (simp only: of_int_less_iff)
  also have "\<dots> < 2 ^ 1024" by simp
  finally show "\<bar>of_int n :: rat\<bar> < 2 ^ 1024" .
qed

lemma round64_0: "round64 0 = Fin 0"
  by (simp add: round64_def rnd64_def)

lemma round64_numeral:
  "(numeral k :: int) < 2 ^ 53 \<Longrightarrow> round64 (numeral k) = Fin (numeral k)"
  using round64_int[of "numeral k"] by simp

lemma round64_near:
  assumes "\<bar>a\<bar> < 2 ^ 1023"
  shows "\<exists>d. round64 a = Fin d \<and> \<bar>d - a\<bar> \<le> \<bar>a\<bar> / 2 ^ 53 + 1 / 2 ^ 1075"
proof -
  have e: "\<bar>rnd64 a - a\<bar> \<le> \<bar>a\<bar> / 2 ^ 53 + 1 / 2 ^ 1075"
    using rnd64_rounding by (simp add: rounding_within_def)
  have "\<bar>a\<bar> / 2 ^ 53 \<le> \<bar>a\<bar> / 2" by (intro divide_left_mono) simp_all
  moreover have "(1::rat) / 2 ^ 1075 < 1" by simp
  ultimately have "\<bar>rnd64 a\<bar> < \<bar>a\<bar> + \<bar>a\<bar> / 2 + 1" using e by linarith
  moreover have "\<bar>a\<bar> + \<bar>a\<bar> / 2 + 1 \<le> 2 ^ 1024" using assms by simp
  ultimately have "\<bar>rnd64 a\<bar> < 2 ^ 1024" by (rule less_le_trans)
  then have "\<not> 2 ^ 1024 \<le> rnd64 a" "\<not> rnd64 a \<le> - (2 ^ 1024)" by linarith+
  then have "round64 a = Fin (rnd64 a)" by (simp add: round64_def)
  then show ?thesis using e by blast
qed

lemma to_double_exact: "\<bar>n\<bar> < 2 ^ 53 \<Longrightarrow> to_double n = Inr (of_int n)"
  by (simp add: to_double_def round64_int)

lemma to_double_overflow:
  assumes "2 ^ 1024 \<le> \<bar>n\<bar>"
  shows "to_double n = Inl OverflowError"
proof (cases "0 \<le> n")
  case True
  then have "2 ^ 1024 \<le> n" using assms by simp
  then have "(of_int (2 ^ 1024) :: rat) \<le> of_int n" by (simp only: of_int_le_iff)
  then have "round64 (of_int n) = PosInf" by (intro round64_overflow(1)) simp
  then show ?thesis by (simp add: to_double_def)
next
  case False
  then have "n \<le> - (2 ^ 1024)" using assms by simp
  then have "(of_int n :: rat) \<le> of_int (- (2 ^ 1024))" by (simp only: of_int_le_iff)
  then have "round64 (of_int n) = NegInf" by (intro round64_overflow(2)) simp
  then show ?thesis by (simp add: to_double_def)
qed

lemma clamp01_cases:
  "clamp01 (Fin c) = Fin (max 0 (min 1 c))"
  "clamp01 PosInf = Fin 1" "clamp01 NaN = Fin 1" "clamp01 NegInf = Fin 0"
  by (simp_all add: clamp01_def max_def min_def)

lemma lines_of_append: "lines_of (xs @ ys) = lines_of xs @ lines_of ys"
  by (induction xs rule: lines_of.induct) simp_all

lemma warnings_of_append: "warnings_of (xs @ ys) = warnings_of xs @ warnings_of ys"
  by (induction xs rule: warnings_of.induct) simp_all

lemma for_annotations_append:
  "for_annotations pf m W H (xs @ ys) =
     (case for_annotations pf m W H xs of
        Inl e \<Rightarrow> Inl e
      | Inr a \<Rightarrow> (case for_annotations pf m W H ys of Inl e \<Rightarrow> Inl e | Inr b \<Rightarrow> Inr (a @ b)))"
  by (induction xs) (simp_all split: sum.splits)

lemma yolo_line_nonempty: "yolo_line cid a b c d \<noteq> []"
  by (simp add: yolo_line_def)

lemma process_annotation_line:
  assumes "process_annotation pf m W H ann = Inr (Line l)"
  shows "l \<noteq> []"
  using assms
  by (auto simp: process_annotation_def annotation_body_def Let_def yolo_line_nonempty
      split: sum.splits option.splits if_splits prod.splits)

lemma for_annotations_lines_nonempty:
  "for_annotations pf m W H anns = Inr outs \<Longrightarrow> \<forall>l \<in> set (lines_of outs). l \<noteq> []"
proof (induction anns arbitrary: outs)
  case Nil
  then show ?case by simp
next
  case (Cons a anns)
  from Cons.prems obtain out rest where
    o: "process_annotation pf m W H a = Inr out"
    and r: "for_annotations pf m W H anns = Inr rest"
    and outs: "outs = out # rest"
    by (auto split: sum.splits)
  have ih: "\<forall>l \<in> set (lines_of rest). l \<noteq> []" using Cons.IH[OF r] .
  show ?case
  proof (cases out)
    case (Line l)
    then have "l \<noteq> []" using o process_annotation_line by blast
    then show ?thesis using ih outs Line by simp
  next
    case (Skipped wn)
    then show ?thesis using ih outs by simp
  qed
qed

lemma join_lines_Cons:
  "join_lines (l # ls) = (if ls = [] then l else l @ [CHR 0x0A] @ join_lines ls)"
  by (cases ls) simp_all

lemma join_lines_empty_iff:
  "\<forall>l \<in> set ls. l \<noteq> [] \<Longrightarrow> join_lines ls = [] \<longleftrightarrow> ls = []"
  by (cases ls) (simp_all add: join_lines_Cons)

lemma join_lines_append:
  "join_lines (xs @ ys) =
     (if xs = [] then join_lines ys
      else if ys = [] then join_lines xs
      else join_lines xs @ [CHR 0x0A] @ join_lines ys)"
  by (induction xs) (simp_all add: join_lines_Cons)

lemma join_lines_around:
  assumes "\<forall>l \<in> set xs. l \<noteq> []" "\<forall>l \<in> set ys. l \<noteq> []"
  shows "join_lines (xs @ [l] @ ys) =
     (if join_lines xs = [] then l else join_lines xs @ [CHR 0x0A] @ l)
       @ (if join_lines ys = [] then [] else CHR 0x0A # join_lines ys)"
  using join_lines_empty_iff[OF assms(1)] join_lines_empty_iff[OF assms(2)]
  by (simp add: join_lines_append join_lines_Cons)

lemma convert_outcomes:
  assumes "0 < W" "0 < H" "convert_to_yolo_format pf anns W H m = Inr (t, ws)"
  shows "\<exists>outs. for_annotations pf m W H anns = Inr outs
            \<and> t = join_lines (lines_of outs) \<and> ws = warnings_of outs"
proof (cases "anns = []")
  case True
  then show ?thesis using assms by (simp add: convert_to_yolo_format_def)
next
  case False
  then show ?thesis using assms
    by (auto simp: convert_to_yolo_format_def split: sum.splits)
qed

lemma convert_of_outcomes:
  assumes "0 < W" "0 < H" "for_annotations pf m W H anns = Inr outs"
  shows "convert_to_yolo_format pf anns W H m = Inr (join_lines (lines_of outs), warnings_of outs)"
proof (cases "anns = []")
  case True
  then show ?thesis using assms by (simp add: convert_to_yolo_format_def)
next
  case False
  then show ?thesis using assms by (simp add: convert_to_yolo_format_def)
qed

lemma process_resolved:
  assumes "ann ''category_name'' = Some (PStr name)" "m name = Some cid"
    "read_box pf ann = Inr (xmin, ymin, width, height)"
    "to_double W = Inr w" "to_double H = Inr h"
  shows "process_annotation pf m W H ann =
     Inr (Line (yolo_line cid (clamp01 (fl_div (fl_add xmin (fl_div width 2)) w))
                  (clamp01 (fl_div (fl_add ymin (fl_div height 2)) h))
                  (clamp01 (fl_div width w)) (clamp01 (fl_div height h))))"
  using assms
  by (simp add: process_annotation_def annotation_body_def lookup_class_def Let_def)

lemma convert_line_in_context:
  assumes pos: "0 < W" "0 < H"
    and p: "process_annotation pf m W H ann = Inr (Line line)"
    and b: "convert_to_yolo_format pf before W H m = Inr (tb, wb)"
    and a: "convert_to_yolo_format pf after W H m = Inr (ta, wa)"
  shows "convert_to_yolo_format pf (before @ [ann] @ after) W H m =
     Inr ((if tb = [] then line else tb @ [CHR 0x0A] @ line)
            @ (if ta = [] then [] else CHR 0x0A # ta), wb @ wa)"
proof -
  obtain ob where ob: "for_annotations pf m W H before = Inr ob"
    "tb = join_lines (lines_of ob)" "wb = warnings_of ob"
    using convert_outcomes[OF pos b] by blast
  obtain oa where oa: "for_annotations pf m W H after = Inr oa"
    "ta = join_lines (lines_of oa)" "wa = warnings_of oa"
    using convert_outcomes[OF pos a] by blast
  have f: "for_annotations pf m W H (before @ [ann] @ after) = Inr (ob @ [Line line] @ oa)"
    using ob(1) oa(1) p by (simp add: for_annotations_append)
  have j: "join_lines (lines_of ob @ [line] @ lines_of oa) =
      (if tb = [] then line else tb @ [CHR 0x0A] @ line)
        @ (if ta = [] then [] else CHR 0x0A # ta)"
    unfolding ob(2) oa(2)
    by (rule join_lines_around)
       (rule for_annotations_lines_nonempty[OF ob(1)], rule for_annotations_lines_nonempty[OF oa(1)])
  show ?thesis
    unfolding convert_of_outcomes[OF pos f]
    using j by (simp add: lines_of_append warnings_of_append ob(3) oa(3))
qed

lemma read_box_bbox_shape:
  assumes "ann ''bbox'' = Some (PList [vx, vy, vw, vh])"
    and "ann ''x'' = None" "ann ''y'' = None" "ann ''width'' = None" "ann ''height'' = None"
  shows "read_box pf ann =
     (case py_float pf vx of Inl e \<Rightarrow> Inl e | Inr x \<Rightarrow>
      (case py_float pf vy of Inl e \<Rightarrow> Inl e | Inr y \<Rightarrow>
       (case py_float pf vw of Inl e \<Rightarrow> Inl e | Inr w \<Rightarrow>
        (case py_float pf vh of Inl e \<Rightarrow> Inl e | Inr h \<Rightarrow> Inr (x, y, w, h)))))"
  using assms by (simp add: read_box_def get_or_bbox_def py_subscript_def split: sum.splits)

lemma read_box_keys_shape:
  assumes "ann ''bbox'' = None"
    and "ann ''x'' = Some vx" "ann ''y'' = Some vy" "ann ''width'' = Some vw"
    "ann ''height'' = Some vh"
  shows "read_box pf ann =
     (case py_float pf vx of Inl e \<Rightarrow> Inl e | Inr x \<Rightarrow>
      (case py_float pf vy of Inl e \<Rightarrow> Inl e | Inr y \<Rightarrow>
       (case py_float pf vw of Inl e \<Rightarrow> Inl e | Inr w \<Rightarrow>
        (case py_float pf vh of Inl e \<Rightarrow> Inl e | Inr h \<Rightarrow> Inr (x, y, w, h)))))"
  using assms by (simp add: read_box_def get_or_bbox_def py_subscript_def split: sum.splits)

lemma py_float_int: "\<bar>n\<bar> < 2 ^ 53 \<Longrightarrow> py_float pf (PInt n) = Inr (Fin (of_int n))"
  by (simp add: py_float_def to_double_exact)

lemma py_float_huge: "2 ^ 1024 \<le> \<bar>n\<bar> \<Longrightarrow> py_float pf (PInt n) = Inl OverflowError"
  by (simp add: py_float_def to_double_overflow)

lemma read_box_ints:
  assumes "\<bar>a\<bar> < 2 ^ 53" "\<bar>b\<bar> < 2 ^ 53" "\<bar>c\<bar> < 2 ^ 53" "\<bar>d\<bar> < 2 ^ 53"
  shows "read_box pf (ann_box name [PInt a, PInt b, PInt c, PInt d]) =
           Inr (Fin (of_int a), Fin (of_int b), Fin (of_int c), Fin (of_int d))"
  using assms
  by (simp add: read_box_bbox_shape[where vx = "PInt a" and vy = "PInt b" and vw = "PInt c"
        and vh = "PInt d"] ann_box_def py_float_int)

lemma round64_1_4: "round64 (1 / 4) = Fin (1 / 4)"
  by (rule round64_exact[where m = "1" and k = "- 2"]) simp_all

lemma round64_1_2: "round64 (1 / 2) = Fin (1 / 2)"
  by (rule round64_exact[where m = "1" and k = "- 1"]) simp_all

lemma round64_9_2: "round64 (9 / 2) = Fin (9 / 2)"
  by (rule round64_exact[where m = "9" and k = "- 1"]) simp_all

lemma round64_9_1280: "round64 (9 / 1280) = Fin (8106479329266893 / 1152921504606846976)"
proof -
  have m: "round_half_even ((9 / 1280) / 2 powi (- 8 - 52)) = 8106479329266893"
    by (rule round_half_even_unique) simp_all
  have "rnd64 (9 / 1280) = of_int 8106479329266893 * 2 powi (- 8 - 52)"
    by (rule rnd64_eval[OF _ _ _ m]) simp_all
  then show ?thesis by (simp add: round64_def)
qed

lemma round64_1_20: "round64 (1 / 20) = Fin (3602879701896397 / 72057594037927936)"
proof -
  have m: "round_half_even ((1 / 20) / 2 powi (- 5 - 52)) = 7205759403792794"
    by (rule round_half_even_unique) simp_all
  have "rnd64 (1 / 20) = of_int 7205759403792794 * 2 powi (- 5 - 52)"
    by (rule rnd64_eval[OF _ _ _ m]) simp_all
  then show ?thesis by (simp add: round64_def)
qed

lemma round64_9_640: "round64 (9 / 640) = Fin (8106479329266893 / 576460752303423488)"
proof -
  have m: "round_half_even ((9 / 640) / 2 powi (- 7 - 52)) = 8106479329266893"
    by (rule round_half_even_unique) simp_all
  have "rnd64 (9 / 640) = of_int 8106479329266893 * 2 powi (- 7 - 52)"
    by (rule rnd64_eval[OF _ _ _ m]) simp_all
  then show ?thesis by (simp add: round64_def)
qed

lemma round64_1_10: "round64 (1 / 10) = Fin (3602879701896397 / 36028797018963968)"
proof -
  have m: "round_half_even ((1 / 10) / 2 powi (- 4 - 52)) = 7205759403792794"
    by (rule round_half_even_unique) simp_all
  have "rnd64 (1 / 10) = of_int 7205759403792794 * 2 powi (- 4 - 52)"
    by (rule rnd64_eval[OF _ _ _ m]) simp_all
  then show ?thesis by (simp add: round64_def)
qed

lemma round64_65_64: "round64 (65 / 64) = Fin (65 / 64)"
  by (rule round64_exact[where m = "65" and k = "- 6"]) simp_all

lemma round64_25_24: "round64 (25 / 24) = Fin (4691249611844267 / 4503599627370496)"
proof -
  have m: "round_half_even ((25 / 24) / 2 powi (0 - 52)) = 4691249611844267"
    by (rule round_half_even_unique) simp_all
  have "rnd64 (25 / 24) = of_int 4691249611844267 * 2 powi (0 - 52)"
    by (rule rnd64_eval[OF _ _ _ m]) simp_all
  then show ?thesis by (simp add: round64_def)
qed

lemma round64_5_32: "round64 (5 / 32) = Fin (5 / 32)"
  by (rule round64_exact[where m = "5" and k = "- 5"]) simp_all

lemma round64_5_12: "round64 (5 / 12) = Fin (7505999378950827 / 18014398509481984)"
proof -
  have m: "round_half_even ((5 / 12) / 2 powi (- 2 - 52)) = 7505999378950827"
    by (rule round_half_even_unique) simp_all
  have "rnd64 (5 / 12) = of_int 7505999378950827 * 2 powi (- 2 - 52)"
    by (rule rnd64_eval[OF _ _ _ m]) simp_all
  then show ?thesis by (simp add: round64_def)
qed

lemma nat_str_0: "nat_str 0 = ''0''"
  by (simp add: nat_str.simps digit_char_def)

lemma nat_str_1: "nat_str (Suc 0) = ''1''"
  by (subst nat_str.simps) (simp add: digit_char_def)

lemma nat_str_7031: "nat_str 7031 = ''7031''"
  by (simp add: nat_str.simps digit_char_def)

lemma nat_str_14063: "nat_str 14063 = ''14063''"
  by (simp add: nat_str.simps digit_char_def)

lemma nat_str_50000: "nat_str 50000 = ''50000''"
  by (simp add: nat_str.simps digit_char_def)

lemma nat_str_100000: "nat_str 100000 = ''100000''"
  by (simp add: nat_str.simps digit_char_def)

lemma nat_str_156250: "nat_str 156250 = ''156250''"
  by (simp add: nat_str.simps digit_char_def)

lemma nat_str_250000: "nat_str 250000 = ''250000''"
  by (simp add: nat_str.simps digit_char_def)

lemma nat_str_416667: "nat_str 416667 = ''416667''"
  by (simp add: nat_str.simps digit_char_def)

lemma nat_str_500000: "nat_str 500000 = ''500000''"
  by (simp add: nat_str.simps digit_char_def)

lemma int_str_0: "int_str 0 = ''0''"
  by (simp add: int_str_def nat_str_0)

lemma int_str_1: "int_str 1 = ''1''"
  by (simp add: int_str_def nat_str_1)

lemma fmt6_quarter: "fmt6 (1 / 4) = ''0.250000''"
proof -
  have r: "round_half_even (\<bar>1 / 4\<bar> * 1000000) = 250000"
    by (rule round_half_even_unique) simp_all
  show ?thesis
    using r by (simp add: fmt6_def Let_def nat_str_0 nat_str_250000)
qed

lemma fmt6_half: "fmt6 (1 / 2) = ''0.500000''"
proof -
  have r: "round_half_even (\<bar>1 / 2\<bar> * 1000000) = 500000"
    by (rule round_half_even_unique) simp_all
  show ?thesis
    using r by (simp add: fmt6_def Let_def nat_str_0 nat_str_500000)
qed

lemma fmt6_one: "fmt6 (1) = ''1.000000''"
proof -
  have r: "round_half_even (\<bar>1\<bar> * 1000000) = 1000000"
    by (rule round_half_even_unique) simp_all
  have z: "replicate 5 CHR ''0'' = ''00000''"
    by (simp add: eval_nat_numeral)
  show ?thesis
    using r by (simp add: fmt6_def Let_def nat_str_1 nat_str_0 z)
qed

lemma fmt6_5_32: "fmt6 (5 / 32) = ''0.156250''"
proof -
  have r: "round_half_even (\<bar>5 / 32\<bar> * 1000000) = 156250"
    by (rule round_half_even_unique) simp_all
  show ?thesis
    using r by (simp add: fmt6_def Let_def nat_str_0 nat_str_156250)
qed

lemma fmt6_dbl_9_1280: "fmt6 (8106479329266893 / 1152921504606846976) = ''0.007031''"
proof -
  have r: "round_half_even (\<bar>8106479329266893 / 1152921504606846976\<bar> * 1000000) = 7031"
    by (rule round_half_even_unique) simp_all
  have z: "replicate 2 CHR ''0'' = ''00''"
    by (simp add: eval_nat_numeral)
  show ?thesis
    using r by (simp add: fmt6_def Let_def nat_str_0 nat_str_7031 z)
qed

lemma fmt6_dbl_1_20: "fmt6 (3602879701896397 / 72057594037927936) = ''0.050000''"
proof -
  have r: "round_half_even (\<bar>3602879701896397 / 72057594037927936\<bar> * 1000000) = 50000"
    by (rule round_half_even_unique) simp_all
  show ?thesis
    using r by (simp add: fmt6_def Let_def nat_str_0 nat_str_50000)
qed

lemma fmt6_dbl_9_640: "fmt6 (8106479329266893 / 576460752303423488) = ''0.014063''"
proof -
  have r: "round_half_even (\<bar>8106479329266893 / 576460752303423488\<bar> * 1000000) = 14063"
    by (rule round_half_even_unique) simp_all
  show ?thesis
    using r by (simp add: fmt6_def Let_def nat_str_0 nat_str_14063)
qed

lemma fmt6_dbl_1_10: "fmt6 (3602879701896397 / 36028797018963968) = ''0.100000''"
proof -
  have r: "round_half_even (\<bar>3602879701896397 / 36028797018963968\<bar> * 1000000) = 100000"
    by (rule round_half_even_unique) simp_all
  show ?thesis
    using r by (simp add: fmt6_def Let_def nat_str_0 nat_str_100000)
qed

lemma fmt6_dbl_5_12: "fmt6 (7505999378950827 / 18014398509481984) = ''0.416667''"
proof -
  have r: "round_half_even (\<bar>7505999378950827 / 18014398509481984\<bar> * 1000000) = 416667"
    by (rule round_half_even_unique) simp_all
  show ?thesis
    using r by (simp add: fmt6_def Let_def nat_str_0 nat_str_416667)
qed

lemma process_spec_example:
  assumes "m name = Some cid"
  shows "process_annotation pf m 200 100
           [''category_name'' \<mapsto> PStr name,
            ''bbox'' \<mapsto> PList [PInt 0, PInt 0, PInt 100, PInt 50]]
         = Inr (Line (int_str cid @ '' 0.250000 0.250000 0.500000 0.500000''))"
proof -
  let ?ex = "[''category_name'' \<mapsto> PStr name,
              ''bbox'' \<mapsto> PList [PInt 0, PInt 0, PInt 100, PInt 50]]"
  have rb: "read_box pf ?ex = Inr (Fin 0, Fin 0, Fin 100, Fin 50)"
    using read_box_ints[of 0 0 100 50 pf name] by (simp add: ann_box_def)
  have "process_annotation pf m 200 100 ?ex =
      Inr (Line (yolo_line cid (clamp01 (fl_div (fl_add (Fin 0) (fl_div (Fin 100) 2)) 200))
                   (clamp01 (fl_div (fl_add (Fin 0) (fl_div (Fin 50) 2)) 100))
                   (clamp01 (fl_div (Fin 100) 200)) (clamp01 (fl_div (Fin 50) 100))))"
    using assms rb by (intro process_resolved) (simp_all add: to_double_exact)
  then show ?thesis
    by (simp add: round64_numeral round64_1_4 round64_1_2 clamp01_cases yolo_line_def
        format_6f_def fmt6_quarter fmt6_half)
qed

lemma process_person_example:
  "process_annotation no_numeric_strings class_map 640 480
     (ann_box ''person'' [PInt 0, PInt 0, PInt 9, PInt 48])
   = Inr (Line ''0 0.007031 0.050000 0.014063 0.100000'')"
proof -
  have rb: "read_box no_numeric_strings (ann_box ''person'' [PInt 0, PInt 0, PInt 9, PInt 48])
      = Inr (Fin 0, Fin 0, Fin 9, Fin 48)"
    using read_box_ints[of 0 0 9 48 no_numeric_strings "''person''"] by simp
  have "process_annotation no_numeric_strings class_map 640 480
          (ann_box ''person'' [PInt 0, PInt 0, PInt 9, PInt 48])
        = Inr (Line (yolo_line 0 (clamp01 (fl_div (fl_add (Fin 0) (fl_div (Fin 9) 2)) 640))
                   (clamp01 (fl_div (fl_add (Fin 0) (fl_div (Fin 48) 2)) 480))
                   (clamp01 (fl_div (Fin 9) 640)) (clamp01 (fl_div (Fin 48) 480))))"
    using rb by (intro process_resolved[where name = "''person''"])
      (simp_all add: to_double_exact ann_box_def class_map_def)
  then show ?thesis
    by (simp add: round64_numeral round64_9_2 round64_9_1280 round64_1_20 round64_9_640
        round64_1_10 clamp01_cases yolo_line_def format_6f_def int_str_0 fmt6_dbl_9_1280
        fmt6_dbl_1_20 fmt6_dbl_9_640 fmt6_dbl_1_10)
qed

lemma process_car_example:
  "process_annotation no_numeric_strings class_map 640 480
     (ann_box ''car'' [PInt 600, PInt 400, PInt 100, PInt 200])
   = Inr (Line ''1 1.000000 1.000000 0.156250 0.416667'')"
proof -
  have rb: "read_box no_numeric_strings (ann_box ''car'' [PInt 600, PInt 400, PInt 100, PInt 200])
      = Inr (Fin 600, Fin 400, Fin 100, Fin 200)"
    using read_box_ints[of 600 400 100 200 no_numeric_strings "''car''"] by simp
  have "process_annotation no_numeric_strings class_map 640 480
          (ann_box ''car'' [PInt 600, PInt 400, PInt 100, PInt 200])
        = Inr (Line (yolo_line 1 (clamp01 (fl_div (fl_add (Fin 600) (fl_div (Fin 100) 2)) 640))
                   (clamp01 (fl_div (fl_add (Fin 400) (fl_div (Fin 200) 2)) 480))
                   (clamp01 (fl_div (Fin 100) 640)) (clamp01 (fl_div (Fin 200) 480))))"
    using rb by (intro process_resolved[where name = "''car''"])
      (simp_all add: to_double_exact ann_box_def class_map_def)
  then show ?thesis
    by (simp add: round64_numeral round64_65_64 round64_25_24 round64_5_32 round64_5_12
        clamp01_cases yolo_line_def format_6f_def int_str_1 fmt6_one fmt6_5_32 fmt6_dbl_5_12)
qed

lemma process_unknown_example:
  "process_annotation no_numeric_strings class_map 640 480
     (ann_box ''dog'' [PInt 10, PInt 10, PInt 10, PInt 10])
   = Inr (Skipped (UnknownCategory (ann_box ''dog'' [PInt 10, PInt 10, PInt 10, PInt 10])))"
  by (simp add: process_annotation_def annotation_body_def lookup_class_def ann_box_def
      class_map_def)

lemma process_short_example:
  "process_annotation no_numeric_strings class_map 640 480 (ann_box ''car'' [PInt 1, PInt 2])
   = Inr (Skipped (SkippedError IndexError (ann_box ''car'' [PInt 1, PInt 2])))"
proof -
  have "lookup_class class_map (ann_box ''car'' [PInt 1, PInt 2] ''category_name'')
        = Inr (Some 1)"
    by (simp add: lookup_class_def ann_box_def class_map_def)
  moreover have "read_box no_numeric_strings (ann_box ''car'' [PInt 1, PInt 2]) = Inl IndexError"
    by (simp add: read_box_def get_or_bbox_def py_subscript_def py_float_def ann_box_def
        to_double_exact)
  ultimately show ?thesis
    by (simp add: process_annotation_def annotation_body_def caught_def)
qed

lemma process_overflow:
  assumes "ann ''category_name'' = Some (PStr s)" "m s = Some cid"
    and "ann ''bbox'' = Some (PList (PInt n # rest))" "ann ''x'' = None"
    and "2 ^ 1024 \<le> \<bar>n\<bar>"
  shows "process_annotation pf m W H ann = Inl OverflowError"
proof -
  have "py_float pf (PInt n) = Inl OverflowError" using assms(5) by (rule py_float_huge)
  then have "read_box pf ann = Inl OverflowError"
    using assms(3,4) by (simp add: read_box_def get_or_bbox_def py_subscript_def)
  then show ?thesis
    using assms(1,2)
    by (simp add: process_annotation_def annotation_body_def lookup_class_def caught_def)
qed

lemma beyond_double_large: "2 ^ 1024 \<le> \<bar>beyond_double\<bar>"
proof -
  have "(2::int) ^ 1024 \<le> 2 ^ 1200" by (intro power_increasing) simp_all
  also have "\<dots> = (2 ^ 3) ^ 400" by (simp only: power_mult[symmetric]) simp
  also have "\<dots> \<le> 10 ^ 400" by (intro power_mono) simp_all
  finally have "(2::int) ^ 1024 \<le> beyond_double" by (simp only: beyond_double_def)
  then show ?thesis by (rule order_trans) simp
qed

lemma process_huge_example:
  "process_annotation no_numeric_strings class_map 640 480
     (ann_box ''car'' [PInt beyond_double, PInt 0, PInt 10, PInt 10])
   = Inl OverflowError"
  by (rule process_overflow[where s = "''car''" and cid = 1 and n = beyond_double
        and rest = "[PInt 0, PInt 10, PInt 10]", OF _ _ _ _ beyond_double_large])
     (simp_all add: ann_box_def class_map_def)

lemma convert_guard:
  "annotations = [] \<or> W \<le> 0 \<or> H \<le> 0 \<Longrightarrow>
     convert_to_yolo_format pf annotations W H m = Inr ([], [])"
  by (auto simp: convert_to_yolo_format_def)

lemma convert_aborts:
  assumes "0 < W" "0 < H"
    and "convert_to_yolo_format pf before W H m = Inr (tb, wb)"
    and "process_annotation pf m W H ann = Inl e"
  shows "convert_to_yolo_format pf (before @ [ann] @ after) W H m = Inl e"
proof -
  obtain ob where "for_annotations pf m W H before = Inr ob"
    using convert_outcomes[OF assms(1-3)] by blast
  then have "for_annotations pf m W H (before @ [ann] @ after) = Inl e"
    using assms(4) by (simp add: for_annotations_append)
  then show ?thesis using assms(1,2) by (simp add: convert_to_yolo_format_def)
qed

lemma convert_skips:
  assumes "0 < W" "0 < H"
    and "convert_to_yolo_format pf before W H m = Inr (tb, wb)"
    and "convert_to_yolo_format pf after W H m = Inr (ta, wa)"
    and "process_annotation pf m W H ann = Inr (Skipped wn)"
  shows "convert_to_yolo_format pf (before @ [ann] @ after) W H m =
     Inr (if tb = [] then ta else if ta = [] then tb else tb @ [CHR 0x0A] @ ta,
          wb @ [wn] @ wa)"
proof -
  note pos = assms(1,2)
  obtain ob where ob: "for_annotations pf m W H before = Inr ob"
    "tb = join_lines (lines_of ob)" "wb = warnings_of ob"
    using convert_outcomes[OF pos assms(3)] by blast
  obtain oa where oa: "for_annotations pf m W H after = Inr oa"
    "ta = join_lines (lines_of oa)" "wa = warnings_of oa"
    using convert_outcomes[OF pos assms(4)] by blast
  have f: "for_annotations pf m W H (before @ [ann] @ after) = Inr (ob @ [Skipped wn] @ oa)"
    using ob(1) oa(1) assms(5) by (simp add: for_annotations_append)
  have j: "join_lines (lines_of ob @ lines_of oa) =
      (if tb = [] then ta else if ta = [] then tb else tb @ [CHR 0x0A] @ ta)"
    unfolding ob(2) oa(2)
    using join_lines_empty_iff[OF for_annotations_lines_nonempty[OF ob(1)]]
      join_lines_empty_iff[OF for_annotations_lines_nonempty[OF oa(1)]]
    by (simp add: join_lines_append)
  show ?thesis
    unfolding convert_of_outcomes[OF pos f]
    using j by (simp add: lines_of_append warnings_of_append ob(3) oa(3))
qed

lemma process_unresolved:
  assumes "ann ''category_name'' = None \<or> ann ''category_name'' = Some PNone
           \<or> (\<exists>s. ann ''category_name'' = Some (PStr s) \<and> m s = None)
           \<or> (\<exists>n. ann ''category_name'' = Some (PInt n))
           \<or> (\<exists>f. ann ''category_name'' = Some (PFloat f))"
  shows "process_annotation pf m W H ann = Inr (Skipped (UnknownCategory ann))"
  using assms
  by (auto simp: process_annotation_def annotation_body_def lookup_class_def)

lemma process_box_error:
  assumes "ann ''category_name'' = Some (PStr s)" "m s = Some cid"
    and "read_box pf ann = Inl e"
  shows "process_annotation pf m W H ann =
           (if e = OverflowError then Inl e else Inr (Skipped (SkippedError e ann)))"
  using assms
  by (cases e) (simp_all add: process_annotation_def annotation_body_def lookup_class_def
      caught_def)

lemma convert_tail_example:
  "convert_to_yolo_format no_numeric_strings
     [ann_box ''dog'' [PInt 10, PInt 10, PInt 10, PInt 10],
      ann_box ''car'' [PInt 600, PInt 400, PInt 100, PInt 200]] 640 480 class_map
   = Inr (''1 1.000000 1.000000 0.156250 0.416667'',
          [UnknownCategory (ann_box ''dog'' [PInt 10, PInt 10, PInt 10, PInt 10])])"
  by (simp add: convert_to_yolo_format_def process_unknown_example process_car_example)

lemma convert_person_example:
  "convert_to_yolo_format no_numeric_strings
     [ann_box ''person'' [PInt 0, PInt 0, PInt 9, PInt 48]] 640 480 class_map
   = Inr (''0 0.007031 0.050000 0.014063 0.100000'', [])"
  by (simp add: convert_to_yolo_format_def process_person_example)

lemma convert_skipped_example:
  "convert_to_yolo_format no_numeric_strings
     [ann_box ''person'' [PInt 0, PInt 0, PInt 9, PInt 48],
      ann_box ''car'' [PInt 1, PInt 2],
      ann_box ''dog'' [PInt 10, PInt 10, PInt 10, PInt 10],
      ann_box ''car'' [PInt 600, PInt 400, PInt 100, PInt 200]] 640 480 class_map
   = Inr (''0 0.007031 0.050000 0.014063 0.100000'' @ [CHR 0x0A] @
          ''1 1.000000 1.000000 0.156250 0.416667'',
          [SkippedError IndexError (ann_box ''car'' [PInt 1, PInt 2]),
           UnknownCategory (ann_box ''dog'' [PInt 10, PInt 10, PInt 10, PInt 10])])"
  by (simp add: convert_to_yolo_format_def process_person_example process_short_example
      process_unknown_example process_car_example)

text \<open>
  C2 (one line per resolved annotation, centre and size normalized and clamped): for
  positive image sizes that convert to doubles, an annotation whose category is a name of
  the class map and whose four box values \<open>x1, y1, width, height\<close> read as floats yields
  the line of the class id and the four values \<open>(x1 + width/2)/W\<close>, \<open>(y1 + height/2)/H\<close>,
  \<open>width/W\<close>, \<open>height/H\<close>, computed in double arithmetic, each clamped into [0, 1] and
  printed with six decimals. The line is the whole text returned when it is the only
  annotation; among other annotations the text returned is the text of those before, a
  newline, the line, a newline and the text of those after, without the newline where
  that side has no line. An image size below \<open>2^53\<close> converts to itself; the box values
  are the floats of the four entries of \<open>bbox\<close>, or of the keys \<open>x\<close>, \<open>y\<close>, \<open>width\<close>,
  \<open>height\<close>; a sum or quotient of finite numbers is the exact one rounded to a double,
  within relative error \<open>2^-53\<close>; the clamp takes a finite number into [0, 1], positive
  infinity and NaN to 1 and negative infinity to 0. A box \<open>[0, 0, 100, 50]\<close> on a 200 by
  100 image yields \<open>{id} 0.250000 0.250000 0.500000 0.500000\<close>, and a box
  \<open>[0, 0, 9, 48]\<close> on a 640 by 480 image yields \<open>0 0.007031 0.050000 0.014063 0.100000\<close>,
  where the double nearest to \<open>9/640\<close> lies above the decimal tie \<open>0.0140625\<close>.
\<close>

theorem convert_to_yolo_format_line:
  assumes "0 < image_width" "0 < image_height"
    and "to_double image_width = Inr w" "to_double image_height = Inr h"
    and "ann ''category_name'' = Some (PStr name)" "class_name_to_id name = Some cid"
    and "read_box str_float ann = Inr (x_min, y_min, width, height)"
  shows
    "(let line = yolo_line cid (clamp01 (fl_div (fl_add x_min (fl_div width 2)) w))
                   (clamp01 (fl_div (fl_add y_min (fl_div height 2)) h))
                   (clamp01 (fl_div width w)) (clamp01 (fl_div height h))
      in convert_to_yolo_format str_float [ann] image_width image_height class_name_to_id
           = Inr (line, [])
         \<and> (convert_to_yolo_format str_float before image_width image_height class_name_to_id
               = Inr (tb, wb)
            \<and> convert_to_yolo_format str_float after image_width image_height class_name_to_id
               = Inr (ta, wa) \<longrightarrow>
            convert_to_yolo_format str_float (before @ [ann] @ after) image_width image_height
                class_name_to_id
              = Inr ((if tb = [] then line else tb @ [CHR 0x0A] @ line)
                       @ (if ta = [] then [] else CHR 0x0A # ta), wb @ wa)))
     \<and> (image_width < 2 ^ 53 \<longrightarrow> w = of_int image_width)
     \<and> (image_height < 2 ^ 53 \<longrightarrow> h = of_int image_height)
     \<and> ((ann ''bbox'' = Some (PList [vx, vy, vw, vh]) \<and> ann ''x'' = None \<and> ann ''y'' = None
           \<and> ann ''width'' = None \<and> ann ''height'' = None)
         \<or> (ann ''bbox'' = None \<and> ann ''x'' = Some vx \<and> ann ''y'' = Some vy
           \<and> ann ''width'' = Some vw \<and> ann ''height'' = Some vh) \<longrightarrow>
         py_float str_float vx = Inr x_min \<and> py_float str_float vy = Inr y_min
         \<and> py_float str_float vw = Inr width \<and> py_float str_float vh = Inr height)
     \<and> (\<forall>f. py_float str_float (PFloat f) = Inr f)
     \<and> (\<forall>n. \<bar>n\<bar> < 2 ^ 53 \<longrightarrow> py_float str_float (PInt n) = Inr (Fin (of_int n)))
     \<and> (\<forall>a b. fl_add (Fin a) (Fin b) = round64 (a + b))
     \<and> (\<forall>a d. fl_div (Fin a) d = round64 (a / d))
     \<and> (\<forall>a. \<bar>a\<bar> < 2 ^ 1023 \<longrightarrow>
           (\<exists>d. round64 a = Fin d \<and> \<bar>d - a\<bar> \<le> \<bar>a\<bar> / 2 ^ 53 + 1 / 2 ^ 1075))
     \<and> (\<forall>c. clamp01 (Fin c) = Fin (max 0 (min 1 c)))
     \<and> clamp01 PosInf = Fin 1 \<and> clamp01 NaN = Fin 1 \<and> clamp01 NegInf = Fin 0
     \<and> convert_to_yolo_format str_float
          [[''category_name'' \<mapsto> PStr name,
            ''bbox'' \<mapsto> PList [PInt 0, PInt 0, PInt 100, PInt 50]]] 200 100 class_name_to_id
         = Inr (int_str cid @ '' 0.250000 0.250000 0.500000 0.500000'', [])
     \<and> convert_to_yolo_format no_numeric_strings
          [ann_box ''person'' [PInt 0, PInt 0, PInt 9, PInt 48]] 640 480 class_map
         = Inr (''0 0.007031 0.050000 0.014063 0.100000'', [])"
proof -
  let ?line = "yolo_line cid (clamp01 (fl_div (fl_add x_min (fl_div width 2)) w))
                 (clamp01 (fl_div (fl_add y_min (fl_div height 2)) h))
                 (clamp01 (fl_div width w)) (clamp01 (fl_div height h))"
  note pos = assms(1,2)
  have p: "process_annotation str_float class_name_to_id image_width image_height ann
             = Inr (Line ?line)"
    using assms(5,6,7,3,4) by (rule process_resolved)
  have one: "convert_to_yolo_format str_float [ann] image_width image_height class_name_to_id
               = Inr (?line, [])"
    using pos p by (simp add: convert_to_yolo_format_def)
  have ctx: "convert_to_yolo_format str_float (before @ [ann] @ after) image_width image_height
                class_name_to_id
              = Inr ((if tb = [] then ?line else tb @ [CHR 0x0A] @ ?line)
                       @ (if ta = [] then [] else CHR 0x0A # ta), wb @ wa)"
    if "convert_to_yolo_format str_float before image_width image_height class_name_to_id
               = Inr (tb, wb)
        \<and> convert_to_yolo_format str_float after image_width image_height class_name_to_id
               = Inr (ta, wa)"
    using convert_line_in_context[OF pos p] that by blast
  have w: "w = of_int image_width" if "image_width < 2 ^ 53"
    using to_double_exact[of image_width] that pos(1) assms(3) by simp
  have h: "h = of_int image_height" if "image_height < 2 ^ 53"
    using to_double_exact[of image_height] that pos(2) assms(4) by simp
  have shape: "py_float str_float vx = Inr x_min \<and> py_float str_float vy = Inr y_min
         \<and> py_float str_float vw = Inr width \<and> py_float str_float vh = Inr height"
    if "(ann ''bbox'' = Some (PList [vx, vy, vw, vh]) \<and> ann ''x'' = None \<and> ann ''y'' = None
           \<and> ann ''width'' = None \<and> ann ''height'' = None)
         \<or> (ann ''bbox'' = None \<and> ann ''x'' = Some vx \<and> ann ''y'' = Some vy
           \<and> ann ''width'' = Some vw \<and> ann ''height'' = Some vh)"
  proof -
    have "read_box str_float ann =
       (case py_float str_float vx of Inl e \<Rightarrow> Inl e | Inr x \<Rightarrow>
        (case py_float str_float vy of Inl e \<Rightarrow> Inl e | Inr y \<Rightarrow>
         (case py_float str_float vw of Inl e \<Rightarrow> Inl e | Inr w \<Rightarrow>
          (case py_float str_float vh of Inl e \<Rightarrow> Inl e | Inr h \<Rightarrow> Inr (x, y, w, h)))))"
      using that read_box_bbox_shape[of ann vx vy vw vh str_float]
        read_box_keys_shape[of ann vx vy vw vh str_float] by blast
    then show ?thesis using assms(7) by (simp split: sum.splits)
  qed
  have spec: "convert_to_yolo_format str_float
          [[''category_name'' \<mapsto> PStr name,
            ''bbox'' \<mapsto> PList [PInt 0, PInt 0, PInt 100, PInt 50]]] 200 100 class_name_to_id
         = Inr (int_str cid @ '' 0.250000 0.250000 0.500000 0.500000'', [])"
    using process_spec_example[where m = class_name_to_id and name = name and cid = cid
        and pf = str_float, OF assms(6)]
    by (simp add: convert_to_yolo_format_def)
  have ex: "convert_to_yolo_format no_numeric_strings
          [ann_box ''person'' [PInt 0, PInt 0, PInt 9, PInt 48]] 640 480 class_map
         = Inr (''0 0.007031 0.050000 0.014063 0.100000'', [])"
    by (simp add: convert_to_yolo_format_def process_person_example)
  have fl: "\<forall>f. py_float str_float (PFloat f) = Inr f" by (simp add: py_float_def)
  have il: "\<forall>n. \<bar>n\<bar> < 2 ^ 53 \<longrightarrow> py_float str_float (PInt n) = Inr (Fin (of_int n))"
    using py_float_int by blast
  have near: "\<forall>a. \<bar>a\<bar> < 2 ^ 1023 \<longrightarrow>
           (\<exists>d. round64 a = Fin d \<and> \<bar>d - a\<bar> \<le> \<bar>a\<bar> / 2 ^ 53 + 1 / 2 ^ 1075)"
    using round64_near by blast
  have ops: "\<forall>a b. fl_add (Fin a) (Fin b) = round64 (a + b)"
    "\<forall>a d. fl_div (Fin a) d = round64 (a / d)" by simp_all
  have cl: "\<forall>c. clamp01 (Fin c) = Fin (max 0 (min 1 c))" by (simp add: clamp01_cases)
  show ?thesis
    unfolding Let_def
    apply (intro conjI impI)
    subgoal by (rule one)
    subgoal by (rule ctx) blast
    subgoal by (rule w)
    subgoal by (rule h)
    subgoal using shape by blast
    subgoal using shape by blast
    subgoal using shape by blast
    subgoal using shape by blast
    subgoal by (rule fl)
    subgoal by (rule il)
    subgoal by (rule ops)
    subgoal by (rule ops)
    subgoal by (rule near)
    subgoal by (rule cl)
    subgoal by (rule clamp01_cases)
    subgoal by (rule clamp01_cases)
    subgoal by (rule clamp01_cases)
    subgoal by (rule spec)
    subgoal by (rule ex)
    done
qed

theorem convert_to_yolo_format_line_witness:
  "(0::int) < 640 \<and> (0::int) < 480
   \<and> to_double 640 = Inr 640 \<and> to_double 480 = Inr 480
   \<and> ann_box ''person'' [PInt 0, PInt 0, PInt 9, PInt 48] ''category_name''
       = Some (PStr ''person'')
   \<and> class_map ''person'' = Some 0
   \<and> read_box no_numeric_strings (ann_box ''person'' [PInt 0, PInt 0, PInt 9, PInt 48])
       = Inr (Fin 0, Fin 0, Fin 9, Fin 48)
   \<and> convert_to_yolo_format no_numeric_strings
        [ann_box ''person'' [PInt 0, PInt 0, PInt 9, PInt 48]] 640 480 class_map
       = Inr (''0 0.007031 0.050000 0.014063 0.100000'', [])
   \<and> convert_to_yolo_format no_numeric_strings
        [ann_box ''person'' [PInt 0, PInt 0, PInt 9, PInt 48],
         ann_box ''dog'' [PInt 10, PInt 10, PInt 10, PInt 10],
         ann_box ''car'' [PInt 600, PInt 400, PInt 100, PInt 200]] 640 480 class_map
       = Inr (''0 0.007031 0.050000 0.014063 0.100000'' @ [CHR 0x0A] @
              ''1 1.000000 1.000000 0.156250 0.416667'',
              [UnknownCategory (ann_box ''dog'' [PInt 10, PInt 10, PInt 10, PInt 10])])
   \<and> convert_to_yolo_format no_numeric_strings
        [ann_box ''person'' [PInt 0, PInt 0, PInt 100, PInt 50]] 200 100 class_map
       = Inr (''0 0.250000 0.250000 0.500000 0.500000'', [])"
proof -
  have pos: "(0::int) < 640" "(0::int) < 480" by simp_all
  have td: "to_double 640 = Inr 640" "to_double 480 = Inr 480"
    using to_double_exact[of 640] to_double_exact[of 480] by simp_all
  have cat: "ann_box ''person'' [PInt 0, PInt 0, PInt 9, PInt 48] ''category_name''
       = Some (PStr ''person'')"
    by (simp add: ann_box_def)
  have cm: "class_map ''person'' = Some 0" by (simp add: class_map_def)
  have rb: "read_box no_numeric_strings (ann_box ''person'' [PInt 0, PInt 0, PInt 9, PInt 48])
       = Inr (Fin 0, Fin 0, Fin 9, Fin 48)"
    using read_box_ints[of 0 0 9 48 no_numeric_strings "''person''"] by simp
  have line: "yolo_line 0 (clamp01 (fl_div (fl_add (Fin 0) (fl_div (Fin 9) 2)) 640))
                (clamp01 (fl_div (fl_add (Fin 0) (fl_div (Fin 48) 2)) 480))
                (clamp01 (fl_div (Fin 9) 640)) (clamp01 (fl_div (Fin 48) 480))
              = ''0 0.007031 0.050000 0.014063 0.100000''"
    by (simp add: round64_numeral round64_9_2 round64_9_1280 round64_1_20 round64_9_640
        round64_1_10 clamp01_cases yolo_line_def format_6f_def int_str_0 fmt6_dbl_9_1280
        fmt6_dbl_1_20 fmt6_dbl_9_640 fmt6_dbl_1_10)
  note inst = convert_to_yolo_format_line
    [where image_width = 640 and image_height = 480 and w = 640 and h = 480
       and name = "''person''" and class_name_to_id = class_map and cid = 0
       and str_float = no_numeric_strings
       and x_min = "Fin 0" and y_min = "Fin 0" and width = "Fin 9" and height = "Fin 48"
       and ann = "ann_box ''person'' [PInt 0, PInt 0, PInt 9, PInt 48]"
       and before = "[]"
       and after = "[ann_box ''dog'' [PInt 10, PInt 10, PInt 10, PInt 10],
                     ann_box ''car'' [PInt 600, PInt 400, PInt 100, PInt 200]]"
       and tb = "[]" and wb = "[]"
       and ta = "''1 1.000000 1.000000 0.156250 0.416667''"
       and wa = "[UnknownCategory (ann_box ''dog'' [PInt 10, PInt 10, PInt 10, PInt 10])]",
     OF pos td cat cm rb]
  have e: "convert_to_yolo_format no_numeric_strings [] 640 480 class_map = Inr ([], [])"
    by (simp add: convert_to_yolo_format_def)
  have one: "convert_to_yolo_format no_numeric_strings
        [ann_box ''person'' [PInt 0, PInt 0, PInt 9, PInt 48]] 640 480 class_map
       = Inr (''0 0.007031 0.050000 0.014063 0.100000'', [])"
    using inst unfolding Let_def line by blast
  have three: "convert_to_yolo_format no_numeric_strings
        [ann_box ''person'' [PInt 0, PInt 0, PInt 9, PInt 48],
         ann_box ''dog'' [PInt 10, PInt 10, PInt 10, PInt 10],
         ann_box ''car'' [PInt 600, PInt 400, PInt 100, PInt 200]] 640 480 class_map
       = Inr (''0 0.007031 0.050000 0.014063 0.100000'' @ [CHR 0x0A] @
              ''1 1.000000 1.000000 0.156250 0.416667'',
              [UnknownCategory (ann_box ''dog'' [PInt 10, PInt 10, PInt 10, PInt 10])])"
    using inst e convert_tail_example unfolding Let_def line by simp
  have spec: "convert_to_yolo_format no_numeric_strings
        [ann_box ''person'' [PInt 0, PInt 0, PInt 100, PInt 50]] 200 100 class_map
       = Inr (''0 0.250000 0.250000 0.500000 0.500000'', [])"
    using inst by (simp add: ann_box_def int_str_0)
  show ?thesis
    using pos td cat cm rb one three spec by blast
qed

text \<open>
  C3 (a number beyond the doubles ends the export): with an empty annotation list or a
  width or height that is not positive the result is the empty text, and a record with
  too short a box or an unknown category is skipped with a warning while its neighbours
  are emitted. A record whose box holds the \<open>int\<close> \<open>10^400\<close> is not skipped: \<open>float\<close> raises
  \<open>OverflowError\<close>, which the \<open>except\<close> clause does not name, and the function raises
  instead of returning the lines of the two records around it.
\<close>

theorem convert_to_yolo_format_aborts_on_overflow:
  "convert_to_yolo_format no_numeric_strings [] 640 480 class_map = Inr ([], [])
   \<and> convert_to_yolo_format no_numeric_strings
        [ann_box ''person'' [PInt 0, PInt 0, PInt 9, PInt 48]] 0 480 class_map = Inr ([], [])
   \<and> convert_to_yolo_format no_numeric_strings
        [ann_box ''person'' [PInt 0, PInt 0, PInt 9, PInt 48]] 640 (- 5) class_map = Inr ([], [])
   \<and> convert_to_yolo_format no_numeric_strings
        [ann_box ''person'' [PInt 0, PInt 0, PInt 9, PInt 48],
         ann_box ''car'' [PInt 1, PInt 2],
         ann_box ''dog'' [PInt 10, PInt 10, PInt 10, PInt 10],
         ann_box ''car'' [PInt 600, PInt 400, PInt 100, PInt 200]] 640 480 class_map
       = Inr (''0 0.007031 0.050000 0.014063 0.100000'' @ [CHR 0x0A] @
              ''1 1.000000 1.000000 0.156250 0.416667'',
              [SkippedError IndexError (ann_box ''car'' [PInt 1, PInt 2]),
               UnknownCategory (ann_box ''dog'' [PInt 10, PInt 10, PInt 10, PInt 10])])
   \<and> beyond_double = 10 ^ 400
   \<and> convert_to_yolo_format no_numeric_strings
        [ann_box ''person'' [PInt 0, PInt 0, PInt 9, PInt 48],
         ann_box ''car'' [PInt beyond_double, PInt 0, PInt 10, PInt 10],
         ann_box ''car'' [PInt 600, PInt 400, PInt 100, PInt 200]] 640 480 class_map
       = Inl OverflowError"
proof (intro conjI)
  show "convert_to_yolo_format no_numeric_strings [] 640 480 class_map = Inr ([], [])"
    by (rule convert_guard) simp
  show "convert_to_yolo_format no_numeric_strings
        [ann_box ''person'' [PInt 0, PInt 0, PInt 9, PInt 48]] 0 480 class_map = Inr ([], [])"
    by (rule convert_guard) simp
  show "convert_to_yolo_format no_numeric_strings
        [ann_box ''person'' [PInt 0, PInt 0, PInt 9, PInt 48]] 640 (- 5) class_map = Inr ([], [])"
    by (rule convert_guard) simp
  show "convert_to_yolo_format no_numeric_strings
        [ann_box ''person'' [PInt 0, PInt 0, PInt 9, PInt 48],
         ann_box ''car'' [PInt 1, PInt 2],
         ann_box ''dog'' [PInt 10, PInt 10, PInt 10, PInt 10],
         ann_box ''car'' [PInt 600, PInt 400, PInt 100, PInt 200]] 640 480 class_map
       = Inr (''0 0.007031 0.050000 0.014063 0.100000'' @ [CHR 0x0A] @
              ''1 1.000000 1.000000 0.156250 0.416667'',
              [SkippedError IndexError (ann_box ''car'' [PInt 1, PInt 2]),
               UnknownCategory (ann_box ''dog'' [PInt 10, PInt 10, PInt 10, PInt 10])])"
    by (rule convert_skipped_example)
  show "beyond_double = 10 ^ 400" by (rule beyond_double_def)
  show "convert_to_yolo_format no_numeric_strings
        [ann_box ''person'' [PInt 0, PInt 0, PInt 9, PInt 48],
         ann_box ''car'' [PInt beyond_double, PInt 0, PInt 10, PInt 10],
         ann_box ''car'' [PInt 600, PInt 400, PInt 100, PInt 200]] 640 480 class_map
       = Inl OverflowError"
    using convert_aborts[where before = "[ann_box ''person'' [PInt 0, PInt 0, PInt 9, PInt 48]]"
        and after = "[ann_box ''car'' [PInt 600, PInt 400, PInt 100, PInt 200]]"
        and ann = "ann_box ''car'' [PInt beyond_double, PInt 0, PInt 10, PInt 10]"
        and W = 640 and H = 480, OF _ _ convert_person_example process_huge_example]
    by simp
qed

end
